theory Spec2Isabelle
  imports Complex_Main
begin

section \<open>The PM2.5 measurement tool (main.py)\<close>

text \<open>
  A shallow embedding of \<^verbatim>\<open>main.py\<close>. The remote service is a parameter of every
  function that talks to it: a transport maps a URL to either the exception
  \<^verbatim>\<open>requests.get\<close> raises or the decoded payload, and payloads have the two shapes the
  service documents for each endpoint. Python floats are read as real numbers. The body
  of the program is given twice: first with exact arithmetic, which is enough for what
  the program reports and for where it fails, then in double precision, for the
  properties of the clock of the loop and of the rate estimate, which turn on rounding.
  Infinities and NaN are not part of either model.
\<close>

subsection \<open>Errors, payloads and observable effects\<close>

datatype error =
    SysExit int                \<comment> \<open>a usage message, then \<^verbatim>\<open>sys.exit(1)\<close>\<close>
  | DiscoveryError string      \<comment> \<open>\<^verbatim>\<open>raise Exception("API error: " + data)\<close>\<close>
  | RemoteError string         \<comment> \<open>\<^verbatim>\<open>raise Exception(message)\<close> in \<^verbatim>\<open>get_samples\<close>\<close>
  | RateLimitExceeded          \<comment> \<open>the rate message, then \<^verbatim>\<open>sys.exit(2)\<close>\<close>
  | CadenceOverrun real        \<comment> \<open>the latency message, then \<^verbatim>\<open>sys.exit(2)\<close>\<close>
  | TransportFailure string    \<comment> \<open>an exception of \<^verbatim>\<open>requests.get\<close>\<close>
  | TypeError
  | KeyError string
  | ZeroDivisionError
  | OverflowError              \<comment> \<open>\<^verbatim>\<open>time.sleep\<close> on a duration too long for it\<close>

text \<open>
  The bounding-box answer is \<^verbatim>\<open>{"status": "ok", "data": [{"uid": ..}, ..]}\<close> or
  \<^verbatim>\<open>{"status": "error", "data": message}\<close>; a station feed is
  \<^verbatim>\<open>{"status": "ok", "data": {"iaqi": {name: {"v": value}}}}\<close> or an error payload whose
  \<^verbatim>\<open>data\<close> is a string and whose \<^verbatim>\<open>message\<close> may be absent.
\<close>

datatype bounds_response = BoundsOk "int list" | BoundsError string

datatype feed_response = FeedOk "string \<rightharpoonup> real" | FeedError "string option"

datatype event =
    IgnoringStation int               \<comment> \<open>\<^verbatim>\<open>print(f"Ignoring station {uid}")\<close>\<close>
  | ValidStations nat                 \<comment> \<open>"There are n valid stations in the requested area."\<close>
  | RateWarning                       \<comment> \<open>the "nearly too high" warning\<close>
  | Collected real "(real \<times> int) list" \<comment> \<open>the per-tick report: latency, then sample and uid\<close>
  | Sleep real                        \<comment> \<open>\<^verbatim>\<open>time.sleep(sleep_time)\<close>\<close>

subsection \<open>Utilities\<close>

text \<open>
  \<^verbatim>\<open>list(executor.map(request_url, url_list))\<close>: the results come back in the order of
  the URLs, and collecting them re-raises the exception of the first request, in that
  order, that failed.
\<close>

fun get_responses_batch :: "('u \<Rightarrow> error + 'r) \<Rightarrow> 'u list \<Rightarrow> error + 'r list" where
  "get_responses_batch request_url [] = Inr []"
| "get_responses_batch request_url (url # url_list) =
     (case request_url url of
        Inl e \<Rightarrow> Inl e
      | Inr response \<Rightarrow>
          (case get_responses_batch request_url url_list of
             Inl e \<Rightarrow> Inl e
           | Inr rest \<Rightarrow> Inr (response # rest)))"

text \<open>
  \<^verbatim>\<open>is_float\<close> asks Python's \<^verbatim>\<open>float()\<close>, which is taken as a parameter on strings;
  a value that already is a float (the defaults of \<^verbatim>\<open>get_input\<close>) converts to itself.
\<close>

datatype arg = Str string | Flt real

fun to_float :: "(string \<Rightarrow> real option) \<Rightarrow> arg \<Rightarrow> real option" where
  "to_float float_of (Str s) = float_of s"
| "to_float float_of (Flt x) = Some x"

definition is_float :: "(string \<Rightarrow> real option) \<Rightarrow> arg \<Rightarrow> bool" where
  "is_float float_of a = (to_float float_of a \<noteq> None)"

text \<open>Decimal rendering of an integer, as an f-string prints a uid.\<close>

fun digits :: "nat \<Rightarrow> string" where
  "digits n =
     (if n < 10 then [''0123456789'' ! n]
      else digits (n div 10) @ [''0123456789'' ! (n mod 10)])"

declare digits.simps [simp del]

definition str_int :: "int \<Rightarrow> string" where
  "str_int i = (if i < 0 then CHR ''-'' # digits (nat (- i)) else digits (nat i))"

definition root_ip :: string where
  "root_ip = ''https://api.waqi.info''"

subsection \<open>Sampling\<close>

definition map_query_request :: "string \<Rightarrow> string \<Rightarrow> string" where
  "map_query_request coords api_token =
     root_ip @ ''/map/bounds?token='' @ api_token @ ''&latlng='' @ coords"

definition station_url :: "string \<Rightarrow> int \<Rightarrow> string" where
  "station_url api_token uid = root_ip @ ''/feed/@'' @ str_int uid @ ''/?token='' @ api_token"

text \<open>
  What \<^verbatim>\<open>get_station_requests\<close> hands back: the float \<^verbatim>\<open>0.0\<close> of its early return,
  or the pair of the filtered URLs and uids.
\<close>

datatype station_requests = PyFloat real | PyPair "string list" "int list"

text \<open>
  The filtering loop over \<^verbatim>\<open>zip(response_list, station_urls, station_uids)\<close>. Reading
  \<^verbatim>\<open>["data"]["iaqi"]\<close> of an error payload, whose \<^verbatim>\<open>data\<close> is a string, raises
  \<^verbatim>\<open>TypeError\<close>. The events are the notices printed, oldest first.
\<close>

fun filter_stations ::
  "string \<Rightarrow> (feed_response \<times> string \<times> int) list \<Rightarrow> error + (string list \<times> int list \<times> event list)"
where
  "filter_stations iaqi [] = Inr ([], [], [])"
| "filter_stations iaqi ((response, url, uid) # rest) =
     (case response of
        FeedError _ \<Rightarrow> Inl TypeError
      | FeedOk index \<Rightarrow>
          (case filter_stations iaqi rest of
             Inl e \<Rightarrow> Inl e
           | Inr (filtered_station_urls, filtered_station_uids, notices) \<Rightarrow>
               if index iaqi \<noteq> None
               then Inr (url # filtered_station_urls, uid # filtered_station_uids, notices)
               else Inr (filtered_station_urls, filtered_station_uids,
                         IgnoringStation uid # notices)))"

definition get_station_requests ::
  "(string \<Rightarrow> error + bounds_response) \<Rightarrow> (string \<Rightarrow> error + feed_response) \<Rightarrow>
   string \<Rightarrow> string \<Rightarrow> string \<Rightarrow> error + (station_requests \<times> event list)"
where
  "get_station_requests query probe coords api_token iaqi =
     (case query (map_query_request coords api_token) of
        Inl e \<Rightarrow> Inl e
      | Inr (BoundsError message) \<Rightarrow> Inl (DiscoveryError (''API error: '' @ message))
      | Inr (BoundsOk uids) \<Rightarrow>
          if length uids = 0 then Inr (PyFloat 0, [])
          else
            let station_urls = map (station_url api_token) uids;
                station_uids = uids
            in (case get_responses_batch probe station_urls of
                  Inl e \<Rightarrow> Inl e
                | Inr response_list \<Rightarrow>
                    (case filter_stations iaqi (zip response_list (zip station_urls station_uids)) of
                       Inl e \<Rightarrow> Inl e
                     | Inr (filtered_station_urls, filtered_station_uids, notices) \<Rightarrow>
                         Inr (PyPair filtered_station_urls filtered_station_uids, notices))))"

text \<open>The measurement loop of \<^verbatim>\<open>get_samples\<close>, over the responses in order.\<close>

fun measurements :: "string \<Rightarrow> feed_response list \<Rightarrow> error + real list" where
  "measurements iaqi [] = Inr []"
| "measurements iaqi (response # rest) =
     (case response of
        FeedError None \<Rightarrow> Inl (KeyError ''message'')
      | FeedError (Some message) \<Rightarrow> Inl (RemoteError message)
      | FeedOk index \<Rightarrow>
          (case index iaqi of
             None \<Rightarrow> Inl (KeyError iaqi)
           | Some v \<Rightarrow>
               (case measurements iaqi rest of
                  Inl e \<Rightarrow> Inl e
                | Inr measurement_list \<Rightarrow> Inr (v # measurement_list))))"

definition get_samples ::
  "(string \<Rightarrow> error + feed_response) \<Rightarrow> string list \<Rightarrow> string \<Rightarrow> error + real list"
where
  "get_samples fetch station_urls iaqi =
     (case get_responses_batch fetch station_urls of
        Inl e \<Rightarrow> Inl e
      | Inr response_list \<Rightarrow> measurements iaqi response_list)"

subsection \<open>Handling arguments\<close>

text \<open>\<^verbatim>\<open>argv\<close> is \<^verbatim>\<open>sys.argv\<close>, the program's name first.\<close>

definition get_input :: "string list \<Rightarrow> error + (string \<times> string \<times> arg \<times> arg)" where
  "get_input argv =
     (if length argv < 3 then Inl (SysExit 1)
      else if length argv > 5 then Inl (SysExit 1)
      else
        let api_token = argv ! 1; coords = argv ! 2
        in if length argv = 3 then Inr (api_token, coords, Flt 5, Flt 1)
           else if length argv = 4 then Inr (api_token, coords, Str (argv ! 3), Flt 1)
           else Inr (api_token, coords, Str (argv ! 3), Str (argv ! 4)))"

definition validate_input ::
  "(string \<Rightarrow> real option) \<Rightarrow> string \<Rightarrow> arg \<Rightarrow> arg \<Rightarrow> error + (string \<times> real \<times> real)"
where
  "validate_input float_of coords sampling_period sampling_rate =
     (if CHR '','' \<notin> set coords then Inl (SysExit 1)
      else if \<not> is_float float_of sampling_period then Inl (SysExit 1)
      else if \<not> is_float float_of sampling_rate then Inl (SysExit 1)
      else
        let period = the (to_float float_of sampling_period);
            rate = the (to_float float_of sampling_rate)
        in if rate / 60 > 1000 then Inl (SysExit 1)
           else Inr (coords, period, rate))"

subsection \<open>Body\<close>

text \<open>
  The rate check that the body makes once discovery has told it the number of stations:
  the estimate, the rejection above 1000 and the warning above 500. The estimate is
  exact here; \<open>rate_guard_double\<close> below rounds it as the code does.
\<close>

definition rate_guard :: "real \<Rightarrow> string list \<Rightarrow> error + event list" where
  "rate_guard sampling_rate station_urls =
     (let estimate_requests_per_sec = (sampling_rate / 60) * real (length station_urls)
      in if estimate_requests_per_sec > 1000 then Inl RateLimitExceeded
         else if estimate_requests_per_sec > 500 then Inr [RateWarning]
         else Inr [])"

text \<open>
  The loop variables, and \<^verbatim>\<open>effects\<close>: what the loop has printed and slept so far, oldest
  first.
\<close>

record session =
  sample_total :: real
  num_samples :: int
  time_elapsed :: real
  effects :: "event list"

definition session_start :: "event list \<Rightarrow> session" where
  "session_start printed =
     \<lparr>sample_total = 0, num_samples = 0, time_elapsed = 0, effects = printed\<rparr>"

text \<open>
  What one iteration observes of the world: the transport as it answers during this
  tick, and the time the batch took (the difference of the two \<^verbatim>\<open>time.time()\<close>
  readings).
\<close>

record tick_world =
  fetch :: "string \<Rightarrow> error + feed_response"
  latency :: real

text \<open>
  The body of the \<^verbatim>\<open>while\<close> loop. Python raises \<^verbatim>\<open>ZeroDivisionError\<close> on a division by
  zero, of \<^verbatim>\<open>len(sample_list)\<close> as of \<^verbatim>\<open>sampling_rate\<close>. The arithmetic is exact here
  and \<^verbatim>\<open>time.sleep\<close> returns; the body in double precision, with a sleep that can
  fail, is \<open>tick_double\<close> below.
\<close>

definition tick ::
  "real \<Rightarrow> string list \<Rightarrow> int list \<Rightarrow> tick_world \<Rightarrow> session \<Rightarrow> error + session"
where
  "tick sampling_rate station_urls station_uids w s =
     (case get_samples (fetch w) station_urls ''pm25'' of
        Inl e \<Rightarrow> Inl e
      | Inr sample_list \<Rightarrow>
          let elapsed_during_request = latency w;
              report = Collected elapsed_during_request (zip sample_list station_uids)
          in if length sample_list = 0 then Inl ZeroDivisionError
             else
               let total = sample_total s + sum_list sample_list / real (length sample_list);
                   count = num_samples s + 1
               in if sampling_rate = 0 then Inl ZeroDivisionError
                  else
                    let sleep_time = 60 / sampling_rate - elapsed_during_request
                    in if sleep_time < 0 then Inl (CadenceOverrun elapsed_during_request)
                       else Inr \<lparr>sample_total = total, num_samples = count,
                                 time_elapsed = time_elapsed s + 60 / sampling_rate,
                                 effects = effects s @ [report, Sleep sleep_time]\<rparr>)"

text \<open>
  The \<^verbatim>\<open>while\<close> loop. \<^verbatim>\<open>world 0\<close> is what the next iteration observes, and the rest of
  the world moves up by one. The result is \<^verbatim>\<open>None\<close> when the loop never ends.
\<close>

partial_function (option) sampling_loop ::
  "real \<Rightarrow> real \<Rightarrow> string list \<Rightarrow> int list \<Rightarrow> (nat \<Rightarrow> tick_world) \<Rightarrow> session \<Rightarrow>
   (error + session) option"
where
  "sampling_loop sampling_period sampling_rate station_urls station_uids world s =
     (if time_elapsed s < sampling_period * 60
      then (case tick sampling_rate station_urls station_uids (world 0) s of
              Inl e \<Rightarrow> Some (Inl e)
            | Inr s' \<Rightarrow>
                sampling_loop sampling_period sampling_rate station_urls station_uids
                  (\<lambda>n. world (Suc n)) s')
      else Some (Inr s))"

declare sampling_loop.simps [code]

text \<open>
  The same loop cut off after \<open>k\<close> iterations: the state once \<open>k\<close> iterations have
  completed, \<^verbatim>\<open>None\<close> when the loop ends or fails before that.
\<close>

fun completed ::
  "nat \<Rightarrow> real \<Rightarrow> real \<Rightarrow> string list \<Rightarrow> int list \<Rightarrow> (nat \<Rightarrow> tick_world) \<Rightarrow> session \<Rightarrow>
   session option"
where
  "completed 0 sampling_period sampling_rate station_urls station_uids world s = Some s"
| "completed (Suc k) sampling_period sampling_rate station_urls station_uids world s =
     (if time_elapsed s < sampling_period * 60
      then (case tick sampling_rate station_urls station_uids (world 0) s of
              Inl e \<Rightarrow> None
            | Inr s' \<Rightarrow>
                completed k sampling_period sampling_rate station_urls station_uids
                  (\<lambda>n. world (Suc n)) s')
      else None)"

text \<open>The last two lines: the average over the ticks, with the number of ticks.\<close>

definition report_average :: "session \<Rightarrow> error + (int \<times> real)" where
  "report_average s =
     (if num_samples s = 0 then Inl ZeroDivisionError
      else Inr (num_samples s, sample_total s / real_of_int (num_samples s)))"

text \<open>
  The program from the validated input on: discovery, the unpacking of its result into
  \<^verbatim>\<open>station_urls, station_uids\<close> (a \<^verbatim>\<open>TypeError\<close> on a float), the rate check, the loop and
  the report.
\<close>

record remote =
  query :: "string \<Rightarrow> error + bounds_response"
  probe :: "string \<Rightarrow> error + feed_response"
  ticks :: "nat \<Rightarrow> tick_world"

definition session_body ::
  "remote \<Rightarrow> string \<Rightarrow> string \<Rightarrow> real \<Rightarrow> real \<Rightarrow> (error + (int \<times> real)) option"
where
  "session_body r api_token coords sampling_period sampling_rate =
     (case get_station_requests (query r) (probe r) coords api_token ''pm25'' of
        Inl e \<Rightarrow> Some (Inl e)
      | Inr (PyFloat x, notices) \<Rightarrow> Some (Inl TypeError)
      | Inr (PyPair station_urls station_uids, notices) \<Rightarrow>
          (case rate_guard sampling_rate station_urls of
             Inl e \<Rightarrow> Some (Inl e)
           | Inr warnings \<Rightarrow>
               (case sampling_loop sampling_period sampling_rate station_urls station_uids
                       (ticks r)
                       (session_start (notices @ [ValidStations (length station_urls)] @ warnings)) of
                  None \<Rightarrow> None
                | Some (Inl e) \<Rightarrow> Some (Inl e)
                | Some (Inr s) \<Rightarrow> Some (report_average s))))"

definition main ::
  "(string \<Rightarrow> real option) \<Rightarrow> remote \<Rightarrow> string list \<Rightarrow> (error + (int \<times> real)) option"
where
  "main float_of r argv =
     (case get_input argv of
        Inl e \<Rightarrow> Some (Inl e)
      | Inr (api_token, coords, period_arg, rate_arg) \<Rightarrow>
          (case validate_input float_of coords period_arg rate_arg of
             Inl e \<Rightarrow> Some (Inl e)
           | Inr (coords', sampling_period, sampling_rate) \<Rightarrow>
               session_body r api_token coords' sampling_period sampling_rate))"

subsection \<open>Double precision\<close>

text \<open>
  The elapsed time and the rate estimate are Python floats, IEEE binary64 numbers, and
  the number of ticks and the outcome of the rate check turn on how their operations
  round. \<open>round64\<close> rounds a real number to the nearest number with a significand of 53
  bits, ties to the even significand, as every binary64 operation rounds its exact
  result. The exponent is not bounded: overflow to infinity, subnormal numbers and NaN
  are not part of the model.
\<close>

definition rint :: "real \<Rightarrow> int" where
  "rint x =
     (let f = \<lfloor>x\<rfloor>; d = x - of_int f
      in if d < 1 / 2 then f else if 1 / 2 < d then f + 1 else if even f then f else f + 1)"

function scale_down :: "real \<Rightarrow> int \<Rightarrow> real \<times> int" where
  "scale_down m e = (if 2 ^ 53 \<le> m then scale_down (m / 2) (e + 1) else (m, e))"
  by pat_completeness auto
termination
proof (relation "measure (\<lambda>(m, e). nat \<lceil>m\<rceil>)")
  show "wf (measure (\<lambda>(m, e). nat \<lceil>m\<rceil>))" by simp
next
  fix m :: real and e :: int
  assume big: "2 ^ 53 \<le> m"
  then have "m / 2 + 1 \<le> m" by simp
  then have "\<lceil>m / 2\<rceil> < \<lceil>m\<rceil>" by linarith
  moreover have "0 < \<lceil>m\<rceil>" using big by (simp add: ceiling_less_iff less_ceiling_iff)
  ultimately show "((m / 2, e + 1), (m, e)) \<in> measure (\<lambda>(m, e). nat \<lceil>m\<rceil>)"
    by simp
qed

function scale_up :: "real \<Rightarrow> int \<Rightarrow> real \<times> int" where
  "scale_up m e = (if 0 < m \<and> m < 2 ^ 52 then scale_up (2 * m) (e - 1) else (m, e))"
  by pat_completeness auto
termination
proof (relation "measure (\<lambda>(m, e). nat \<lceil>2 ^ 52 / m\<rceil>)")
  show "wf (measure (\<lambda>(m, e). nat \<lceil>2 ^ 52 / m\<rceil>))" by simp
next
  fix m :: real and e :: int
  assume small: "0 < m \<and> m < 2 ^ 52"
  define h where "h = 2 ^ 52 / m"
  have h: "1 < h" using small by (simp add: h_def)
  have half: "2 ^ 52 / (2 * m) = h / 2" by (simp add: h_def)
  have two: "2 \<le> \<lceil>h\<rceil>" using h by linarith
  have le: "h \<le> of_int \<lceil>h\<rceil>" by linarith
  have "(2::real) \<le> of_int \<lceil>h\<rceil>" using two by linarith
  with le have "h / 2 \<le> of_int \<lceil>h\<rceil> - 1" by linarith
  then have "h / 2 \<le> of_int (\<lceil>h\<rceil> - 1)" by simp
  then have "\<lceil>h / 2\<rceil> \<le> \<lceil>h\<rceil> - 1" by (rule ceiling_le)
  then have "\<lceil>h / 2\<rceil> < \<lceil>h\<rceil>" by simp
  moreover have "0 < \<lceil>h\<rceil>" using h by linarith
  ultimately show "((2 * m, e - 1), (m, e)) \<in> measure (\<lambda>(m, e). nat \<lceil>2 ^ 52 / m\<rceil>)"
    using half by (simp add: h_def)
qed

declare scale_down.simps [simp del] scale_up.simps [simp del]

text \<open>
  A positive number as a significand in \<open>[2 ^ 52, 2 ^ 53)\<close> times a power of two; the
  significand is then rounded to an integer.
\<close>

definition normalise :: "real \<Rightarrow> real \<times> int" where
  "normalise x = (case scale_down x 0 of (m, e) \<Rightarrow> scale_up m e)"

definition round_pos :: "real \<Rightarrow> real" where
  "round_pos x = (case normalise x of (m, e) \<Rightarrow> of_int (rint m) * 2 powi e)"

definition round64 :: "real \<Rightarrow> real" where
  "round64 x = (if x = 0 then 0 else if x < 0 then - round_pos (- x) else round_pos x)"

definition fadd :: "real \<Rightarrow> real \<Rightarrow> real" where
  "fadd x y = round64 (x + y)"

definition fsub :: "real \<Rightarrow> real \<Rightarrow> real" where
  "fsub x y = round64 (x - y)"

definition fmul :: "real \<Rightarrow> real \<Rightarrow> real" where
  "fmul x y = round64 (x * y)"

definition fdiv :: "real \<Rightarrow> real \<Rightarrow> real" where
  "fdiv x y = round64 (x / y)"

text \<open>
  Two library functions are parameters of the loop: \<^verbatim>\<open>sum\<close> on a list of floats, whose
  rounding depends on the version of Python, and whether \<^verbatim>\<open>time.sleep\<close> raises
  \<^verbatim>\<open>OverflowError\<close> on a duration that is not negative.
\<close>

record python =
  py_sum :: "real list \<Rightarrow> real"
  sleep_overflows :: "real \<Rightarrow> bool"

text \<open>
  The rate check, the body of the loop, the loop and the report as above, with every
  float operation rounded and with the failure of \<^verbatim>\<open>time.sleep\<close>.
\<close>

definition rate_guard_double :: "real \<Rightarrow> string list \<Rightarrow> error + event list" where
  "rate_guard_double sampling_rate station_urls =
     (let estimate_requests_per_sec = fmul (fdiv sampling_rate 60) (real (length station_urls))
      in if estimate_requests_per_sec > 1000 then Inl RateLimitExceeded
         else if estimate_requests_per_sec > 500 then Inr [RateWarning]
         else Inr [])"

definition tick_double ::
  "python \<Rightarrow> real \<Rightarrow> string list \<Rightarrow> int list \<Rightarrow> tick_world \<Rightarrow> session \<Rightarrow> error + session"
where
  "tick_double lib sampling_rate station_urls station_uids w s =
     (case get_samples (fetch w) station_urls ''pm25'' of
        Inl e \<Rightarrow> Inl e
      | Inr sample_list \<Rightarrow>
          let elapsed_during_request = latency w;
              report = Collected elapsed_during_request (zip sample_list station_uids)
          in if length sample_list = 0 then Inl ZeroDivisionError
             else
               let total = fadd (sample_total s)
                             (fdiv (py_sum lib sample_list) (real (length sample_list)));
                   count = num_samples s + 1
               in if sampling_rate = 0 then Inl ZeroDivisionError
                  else
                    let sleep_time = fsub (fdiv 60 sampling_rate) elapsed_during_request
                    in if sleep_time < 0 then Inl (CadenceOverrun elapsed_during_request)
                       else if sleep_overflows lib sleep_time then Inl OverflowError
                       else Inr \<lparr>sample_total = total, num_samples = count,
                                 time_elapsed = fadd (time_elapsed s) (fdiv 60 sampling_rate),
                                 effects = effects s @ [report, Sleep sleep_time]\<rparr>)"

partial_function (option) sampling_loop_double ::
  "python \<Rightarrow> real \<Rightarrow> real \<Rightarrow> string list \<Rightarrow> int list \<Rightarrow> (nat \<Rightarrow> tick_world) \<Rightarrow> session \<Rightarrow>
   (error + session) option"
where
  "sampling_loop_double lib sampling_period sampling_rate station_urls station_uids world s =
     (if time_elapsed s < fmul sampling_period 60
      then (case tick_double lib sampling_rate station_urls station_uids (world 0) s of
              Inl e \<Rightarrow> Some (Inl e)
            | Inr s' \<Rightarrow>
                sampling_loop_double lib sampling_period sampling_rate station_urls station_uids
                  (\<lambda>n. world (Suc n)) s')
      else Some (Inr s))"

declare sampling_loop_double.simps [code]

fun completed_double ::
  "python \<Rightarrow> nat \<Rightarrow> real \<Rightarrow> real \<Rightarrow> string list \<Rightarrow> int list \<Rightarrow> (nat \<Rightarrow> tick_world) \<Rightarrow>
   session \<Rightarrow> session option"
where
  "completed_double lib 0 sampling_period sampling_rate station_urls station_uids world s = Some s"
| "completed_double lib (Suc k) sampling_period sampling_rate station_urls station_uids world s =
     (if time_elapsed s < fmul sampling_period 60
      then (case tick_double lib sampling_rate station_urls station_uids (world 0) s of
              Inl e \<Rightarrow> None
            | Inr s' \<Rightarrow>
                completed_double lib k sampling_period sampling_rate station_urls station_uids
                  (\<lambda>n. world (Suc n)) s')
      else None)"

definition report_average_double :: "session \<Rightarrow> error + (int \<times> real)" where
  "report_average_double s =
     (if num_samples s = 0 then Inl ZeroDivisionError
      else Inr (num_samples s, fdiv (sample_total s) (real_of_int (num_samples s))))"

definition session_body_double ::
  "python \<Rightarrow> remote \<Rightarrow> string \<Rightarrow> string \<Rightarrow> real \<Rightarrow> real \<Rightarrow> (error + (int \<times> real)) option"
where
  "session_body_double lib r api_token coords sampling_period sampling_rate =
     (case get_station_requests (query r) (probe r) coords api_token ''pm25'' of
        Inl e \<Rightarrow> Some (Inl e)
      | Inr (PyFloat x, notices) \<Rightarrow> Some (Inl TypeError)
      | Inr (PyPair station_urls station_uids, notices) \<Rightarrow>
          (case rate_guard_double sampling_rate station_urls of
             Inl e \<Rightarrow> Some (Inl e)
           | Inr warnings \<Rightarrow>
               (case sampling_loop_double lib sampling_period sampling_rate station_urls
                       station_uids (ticks r)
                       (session_start (notices @ [ValidStations (length station_urls)] @ warnings)) of
                  None \<Rightarrow> None
                | Some (Inl e) \<Rightarrow> Some (Inl e)
                | Some (Inr s) \<Rightarrow> Some (report_average_double s))))"

subsection \<open>Notions the properties are stated with\<close>

text \<open>The three outcomes of the rate check, in order of severity.\<close>

definition severity :: "error + event list \<Rightarrow> nat" where
  "severity outcome = (case outcome of Inl e \<Rightarrow> 2 | Inr [] \<Rightarrow> 0 | Inr (w # ws) \<Rightarrow> 1)"

text \<open>A station reports a pollutant when its probe answers with an index that has the key.\<close>

definition reports :: "(string \<Rightarrow> error + feed_response) \<Rightarrow> string \<Rightarrow> string \<Rightarrow> int \<Rightarrow> bool" where
  "reports transport api_token iaqi uid =
     (case transport (station_url api_token uid) of
        Inr (FeedOk index) \<Rightarrow> index iaqi \<noteq> None
      | _ \<Rightarrow> False)"

definition answers :: "(string \<Rightarrow> error + feed_response) \<Rightarrow> string \<Rightarrow> int \<Rightarrow> bool" where
  "answers transport api_token uid =
     (case transport (station_url api_token uid) of Inr (FeedOk index) \<Rightarrow> True | _ \<Rightarrow> False)"

subsection \<open>Example inputs\<close>

definition flaky :: "string \<Rightarrow> error + string" where
  "flaky url = (if url = ''b'' then Inl (TransportFailure ''down'') else Inr (''body of '' @ url))"

definition decimals :: "string \<Rightarrow> real option" where
  "decimals s =
     (if s = ''0.1'' then Some (1 / 10) else if s = ''1'' then Some 1
      else if s = ''0'' then Some 0 else if s = ''-1'' then Some (- 1)
      else if s = ''5'' then Some 5 else None)"

text \<open>Three stations reporting 10, 20 and 30; every batch takes half a second.\<close>

definition feeds :: "string \<Rightarrow> error + feed_response" where
  "feeds url =
     (if url = station_url ''token'' 1 then Inr (FeedOk [''pm25'' \<mapsto> 10])
      else if url = station_url ''token'' 2 then Inr (FeedOk [''pm25'' \<mapsto> 20])
      else Inr (FeedOk [''pm25'' \<mapsto> 30]))"

definition steady :: "nat \<Rightarrow> tick_world" where
  "steady n = \<lparr>fetch = feeds, latency = 1 / 2\<rparr>"

definition three_stations :: remote where
  "three_stations = \<lparr>query = (\<lambda>url. Inr (BoundsOk [1, 2, 3])), probe = feeds, ticks = steady\<rparr>"

definition argv_scenario :: "string list" where
  "argv_scenario = [''main.py'', ''token'', ''1,2,3,4'', ''0.1'', ''1'']"

text \<open>An area whose bounding-box query succeeds with no station.\<close>

definition empty_area :: remote where
  "empty_area = \<lparr>query = (\<lambda>url. Inr (BoundsOk [])), probe = feeds, ticks = steady\<rparr>"

text \<open>Station 2 reports only PM10; station 7 is the only station of its area and does the same.\<close>

definition partial_feeds :: "string \<Rightarrow> error + feed_response" where
  "partial_feeds url =
     (if url = station_url ''token'' 2 \<or> url = station_url ''token'' 7
      then Inr (FeedOk [''pm10'' \<mapsto> 5])
      else feeds url)"

definition one_without_pm25 :: remote where
  "one_without_pm25 =
     \<lparr>query = (\<lambda>url. Inr (BoundsOk [1, 2, 3])), probe = partial_feeds,
      ticks = (\<lambda>n. \<lparr>fetch = partial_feeds, latency = 1 / 2\<rparr>)\<rparr>"

definition none_with_pm25 :: remote where
  "none_with_pm25 =
     \<lparr>query = (\<lambda>url. Inr (BoundsOk [7])), probe = partial_feeds,
      ticks = (\<lambda>n. \<lparr>fetch = partial_feeds, latency = 1 / 2\<rparr>)\<rparr>"

text \<open>The probe of station 2 answers with an error payload.\<close>

definition failing_probe :: "string \<Rightarrow> error + feed_response" where
  "failing_probe url =
     (if url = station_url ''token'' 2 then Inr (FeedError (Some ''Unknown station''))
      else feeds url)"

text \<open>The request to station 2 fails.\<close>

definition unreachable_probe :: "string \<Rightarrow> error + feed_response" where
  "unreachable_probe url =
     (if url = station_url ''token'' 2 then Inl (TransportFailure ''connection refused'')
      else feeds url)"

text \<open>A batch that takes exactly the target interval of one sample per minute.\<close>

definition on_the_minute :: tick_world where
  "on_the_minute = \<lparr>fetch = feeds, latency = 60\<rparr>"

definition late :: tick_world where
  "late = \<lparr>fetch = feeds, latency = 61\<rparr>"

text \<open>
  CPython 3.11: \<^verbatim>\<open>sum\<close> adds from left to right, and \<^verbatim>\<open>time.sleep\<close> raises when the
  duration in nanoseconds, rounded up, does not fit a signed 64-bit integer.
\<close>

definition cpython :: python where
  "cpython =
     \<lparr>py_sum = foldl fadd 0,
      sleep_overflows = (\<lambda>seconds. 2 ^ 63 \<le> \<lceil>fmul seconds (10 ^ 9)\<rceil>)\<rparr>"

lemmas run_defs =
  main_def get_input_def validate_input_def is_float_def decimals_def session_body_def
  get_station_requests_def map_query_request_def station_url_def str_int_def digits.simps
  root_ip_def feeds_def partial_feeds_def failing_probe_def steady_def rate_guard_def
  session_start_def tick_def get_samples_def report_average_def argv_scenario_def

lemmas double_defs =
  round64_def round_pos_def normalise_def scale_down.simps scale_up.simps rint_def Let_def
  fadd_def fsub_def fmul_def fdiv_def cpython_def rate_guard_double_def tick_double_def
  report_average_double_def session_body_double_def

subsection \<open>The batch fetcher\<close>

lemma get_responses_batch_Inr:
  "get_responses_batch f urls = Inr rs \<longleftrightarrow>
     length rs = length urls \<and> (\<forall>i < length urls. f (urls ! i) = Inr (rs ! i))"
proof (induction urls arbitrary: rs)
  case Nil
  then show ?case by auto
next
  case (Cons u us)
  show ?case
  proof (cases "f u")
    case (Inl e)
    then show ?thesis by (auto dest: spec [of _ 0])
  next
    case fu: (Inr r)
    show ?thesis
    proof (cases "get_responses_batch f us")
      case (Inl e)
      have "\<not> (length (tl rs) = length us \<and> (\<forall>i < length us. f (us ! i) = Inr (tl rs ! i)))"
        using Cons.IH [of "tl rs"] Inl by simp
      then show ?thesis using fu Inl
        by (cases rs) (auto simp: nth_Cons split: nat.splits)
    next
      case (Inr rest)
      show ?thesis
      proof (cases rs)
        case Nil
        then show ?thesis using fu Inr by simp
      next
        case (Cons r' rs')
        show ?thesis using fu Inr Cons Cons.IH [of rs']
          by (auto simp: nth_Cons split: nat.splits)
      qed
    qed
  qed
qed

lemma get_responses_batch_Inl:
  "i < length urls \<Longrightarrow> f (urls ! i) = Inl e \<Longrightarrow> \<forall>j < i. \<exists>r. f (urls ! j) = Inr r \<Longrightarrow>
   get_responses_batch f urls = Inl e"
proof (induction urls arbitrary: i)
  case Nil
  then show ?case by simp
next
  case (Cons u us)
  show ?case
  proof (cases i)
    case 0
    then show ?thesis using Cons.prems by simp
  next
    case (Suc k)
    have head: "\<exists>r. f u = Inr r"
      using Cons.prems(3) Suc by (auto dest: spec [of _ 0])
    have later: "\<forall>j < k. \<exists>r. f (us ! j) = Inr r"
    proof (intro allI impI)
      fix j assume "j < k"
      then have "Suc j < i" using Suc by simp
      then show "\<exists>r. f (us ! j) = Inr r"
        using Cons.prems(3) by (auto dest: spec [of _ "Suc j"])
    qed
    have "get_responses_batch f us = Inl e"
      using Cons.IH [of k] Cons.prems(1,2) Suc later by simp
    then show ?thesis using head by auto
  qed
qed

text \<open>
  A batch in which the second of three requests fails: no result sequence comes back,
  the failure of that one request is the outcome of the whole batch.
\<close>

theorem batch_one_failure_loses_all:
  "get_responses_batch flaky [''a'', ''b'', ''c''] = Inl (TransportFailure ''down'')"
  by (simp add: flaky_def)

text \<open>
  Claim C8, as the code has it. When every request of the batch succeeds, the batch
  returns a sequence as long as the URL sequence whose i-th element is the response to
  the i-th URL, and a batch returns a sequence in no other case. When a request fails,
  the batch returns no sequence at all: it raises the failure of the first failing URL
  in input order. No failure is captured as an element.
\<close>

theorem batch_all_or_first_failure:
  "((\<forall>i < length urls. \<exists>r. f (urls ! i) = Inr r) \<longrightarrow>
      (\<exists>rs. get_responses_batch f urls = Inr rs \<and> length rs = length urls \<and>
            (\<forall>i < length urls. f (urls ! i) = Inr (rs ! i)))) \<and>
   (get_responses_batch f urls = Inr rs \<longrightarrow>
      length rs = length urls \<and> (\<forall>i < length urls. f (urls ! i) = Inr (rs ! i))) \<and>
   (i < length urls \<and> f (urls ! i) = Inl e \<and> (\<forall>j < i. \<exists>r. f (urls ! j) = Inr r) \<longrightarrow>
      get_responses_batch f urls = Inl e)"
proof (intro conjI impI)
  assume ok: "\<forall>i < length urls. \<exists>r. f (urls ! i) = Inr r"
  define out where "out = map (\<lambda>u. projr (f u)) urls"
  have shape: "length out = length urls \<and> (\<forall>i < length urls. f (urls ! i) = Inr (out ! i))"
    using ok by (auto simp: out_def)
  then have "get_responses_batch f urls = Inr out"
    using get_responses_batch_Inr [of f urls out] by blast
  then show "\<exists>rs. get_responses_batch f urls = Inr rs \<and> length rs = length urls \<and>
            (\<forall>i < length urls. f (urls ! i) = Inr (rs ! i))"
    using shape by blast
next
  assume "get_responses_batch f urls = Inr rs"
  then show "length rs = length urls" by (simp add: get_responses_batch_Inr)
next
  assume "get_responses_batch f urls = Inr rs"
  then show "\<forall>i < length urls. f (urls ! i) = Inr (rs ! i)"
    by (simp add: get_responses_batch_Inr)
next
  assume "i < length urls \<and> f (urls ! i) = Inl e \<and> (\<forall>j < i. \<exists>r. f (urls ! j) = Inr r)"
  then show "get_responses_batch f urls = Inl e"
    using get_responses_batch_Inl [of i urls f e] by blast
qed

theorem batch_all_or_first_failure_witness:
  "get_responses_batch flaky [''a'', ''c''] = Inr [''body of a'', ''body of c''] \<and>
   length [''body of a'', ''body of c''] = length [''a'', ''c''] \<and>
   flaky ([''a'', ''c''] ! 1) = Inr ([''body of a'', ''body of c''] ! 1) \<and>
   (1::nat) < length [''a'', ''b'', ''c''] \<and>
   flaky ([''a'', ''b'', ''c''] ! 1) = Inl (TransportFailure ''down'') \<and>
   get_responses_batch flaky [''a'', ''b'', ''c''] = Inl (TransportFailure ''down'')"
proof -
  have run: "get_responses_batch flaky [''a'', ''c''] = Inr [''body of a'', ''body of c'']"
    by (simp add: flaky_def)
  have fail: "(1::nat) < length [''a'', ''b'', ''c''] \<and>
      flaky ([''a'', ''b'', ''c''] ! 1) = Inl (TransportFailure ''down'') \<and>
      (\<forall>j < (1::nat). \<exists>r. flaky ([''a'', ''b'', ''c''] ! j) = Inr r)"
    by (simp add: flaky_def)
  note good = batch_all_or_first_failure
    [of "[''a'', ''c'']" flaky "[''body of a'', ''body of c'']" 1 "TransportFailure ''down''"]
  note bad = batch_all_or_first_failure
    [of "[''a'', ''b'', ''c'']" flaky "[]" 1 "TransportFailure ''down''"]
  have a: "length [''body of a'', ''body of c''] = length [''a'', ''c''] \<and>
      (\<forall>i < length [''a'', ''c'']. flaky ([''a'', ''c''] ! i) = Inr ([''body of a'', ''body of c''] ! i))"
    using good run by blast
  have b: "get_responses_batch flaky [''a'', ''b'', ''c''] = Inl (TransportFailure ''down'')"
    using bad fail by blast
  show ?thesis using run a b fail by (simp add: flaky_def)
qed

subsection \<open>The sampling loop\<close>



text \<open>What a tick that does not fail has observed, and the state it leaves.\<close>

lemma tick_Inr:
  "tick rate urls uids w s = Inr s' \<longleftrightarrow>
     (\<exists>samples. get_samples (fetch w) urls ''pm25'' = Inr samples \<and> samples \<noteq> [] \<and>
        rate \<noteq> 0 \<and> latency w \<le> 60 / rate \<and>
        s' = \<lparr>sample_total = sample_total s + sum_list samples / real (length samples),
              num_samples = num_samples s + 1,
              time_elapsed = time_elapsed s + 60 / rate,
              effects = effects s @ [Collected (latency w) (zip samples uids),
                                     Sleep (60 / rate - latency w)]\<rparr>)"
  by (auto simp: tick_def Let_def split: sum.splits)

lemma completed_counts:
  "completed k p rate urls uids world s = Some s' \<Longrightarrow>
     num_samples s' = num_samples s + int k \<and>
     time_elapsed s' = time_elapsed s + real k * (60 / rate)"
proof (induction k arbitrary: world s)
  case 0
  then show ?case by simp
next
  case (Suc k)
  from Suc.prems obtain s1 where
    t: "tick rate urls uids (world 0) s = Inr s1" and
    c: "completed k p rate urls uids (\<lambda>n. world (Suc n)) s1 = Some s'"
    by (auto split: if_splits sum.splits)
  from t have "num_samples s1 = num_samples s + 1" "time_elapsed s1 = time_elapsed s + 60 / rate"
    by (auto simp: tick_Inr)
  with Suc.IH [OF c] show ?case by (simp add: distrib_right add_divide_distrib)
qed

lemma loop_from_completed:
  "completed k p rate urls uids world s = Some s' \<Longrightarrow>
     sampling_loop p rate urls uids world s =
     sampling_loop p rate urls uids (\<lambda>n. world (k + n)) s'"
proof (induction k arbitrary: world s)
  case 0
  then show ?case by simp
next
  case (Suc k)
  from Suc.prems obtain s1 where
    g: "time_elapsed s < p * 60" and
    t: "tick rate urls uids (world 0) s = Inr s1" and
    c: "completed k p rate urls uids (\<lambda>n. world (Suc n)) s1 = Some s'"
    by (auto split: if_splits sum.splits)
  have "sampling_loop p rate urls uids world s =
        sampling_loop p rate urls uids (\<lambda>n. world (Suc n)) s1"
    using g t by (subst sampling_loop.simps) simp
  also have "\<dots> = sampling_loop p rate urls uids (\<lambda>n. world (Suc (k + n))) s'"
    using Suc.IH [OF c] by simp
  finally show ?case by simp
qed

lemma loop_returns_step:
  assumes "sampling_loop p rate urls uids world s = Some y"
  shows "\<forall>t. y = Inr t \<longrightarrow>
           (\<exists>k. completed k p rate urls uids world s = Some t \<and> \<not> time_elapsed t < p * 60)"
proof (rule sampling_loop.raw_induct
    [OF _ assms, where P = "\<lambda>p rate urls uids world s y. \<forall>t. y = Inr t \<longrightarrow>
           (\<exists>k. completed k p rate urls uids world s = Some t \<and> \<not> time_elapsed t < p * 60)"])
  fix loop p rate urls uids world s y
  assume IH: "\<And>p rate urls uids world s y. loop p rate urls uids world s = Some y \<Longrightarrow>
      \<forall>t. y = Inr t \<longrightarrow>
        (\<exists>k. completed k p rate urls uids world s = Some t \<and> \<not> time_elapsed t < p * 60)"
    and body: "(if time_elapsed s < p * 60
      then case tick rate urls uids (world 0) s of
           Inl e \<Rightarrow> Some (Inl e)
           | Inr s' \<Rightarrow> loop p rate urls uids (\<lambda>n. world (Suc n)) s'
      else Some (Inr s)) = Some y"
  show "\<forall>t. y = Inr t \<longrightarrow>
        (\<exists>k. completed k p rate urls uids world s = Some t \<and> \<not> time_elapsed t < p * 60)"
  proof (intro allI impI)
    fix t assume y: "y = Inr t"
    show "\<exists>k. completed k p rate urls uids world s = Some t \<and> \<not> time_elapsed t < p * 60"
    proof (cases "time_elapsed s < p * 60")
      case False
      with body y have "t = s" by simp
      with False have "completed 0 p rate urls uids world s = Some t \<and> \<not> time_elapsed t < p * 60"
        by simp
      then show ?thesis by blast
    next
      case True
      with body y obtain s1 where
        t: "tick rate urls uids (world 0) s = Inr s1" and
        l: "loop p rate urls uids (\<lambda>n. world (Suc n)) s1 = Some (Inr t)"
        by (auto split: sum.splits)
      from IH [OF l] obtain k where
        "completed k p rate urls uids (\<lambda>n. world (Suc n)) s1 = Some t" "\<not> time_elapsed t < p * 60"
        by blast
      with True t have "completed (Suc k) p rate urls uids world s = Some t \<and> \<not> time_elapsed t < p * 60"
        by simp
      then show ?thesis by blast
    qed
  qed
qed

lemma loop_returns:
  "sampling_loop p rate urls uids world s = Some (Inr t) \<Longrightarrow>
     \<exists>k. completed k p rate urls uids world s = Some t \<and> \<not> time_elapsed t < p * 60"
  using loop_returns_step by blast


text \<open>Conversely, a state reached after \<open>k\<close> iterations at which the guard fails is the result.\<close>

lemma loop_done:
  "completed k p rate urls uids world s = Some t \<Longrightarrow> \<not> time_elapsed t < p * 60 \<Longrightarrow>
     sampling_loop p rate urls uids world s = Some (Inr t)"
  by (simp add: loop_from_completed sampling_loop.simps [of p rate urls uids _ t])


text \<open>
  With a positive sampling rate every iteration that does not fail moves the elapsed
  time forward by the same positive interval, so the loop always ends.
\<close>

lemma loop_terminates_within:
  "0 < rate \<Longrightarrow> p * 60 - time_elapsed s \<le> real m * (60 / rate) \<Longrightarrow>
     \<exists>y. sampling_loop p rate urls uids world s = Some y"
proof (induction m arbitrary: world s)
  case 0
  then have "\<not> time_elapsed s < p * 60" by simp
  then show ?case by (simp add: sampling_loop.simps [of p rate urls uids world s])
next
  case (Suc m)
  show ?case
  proof (cases "time_elapsed s < p * 60")
    case False
    then show ?thesis by (simp add: sampling_loop.simps [of p rate urls uids world s])
  next
    case True
    show ?thesis
    proof (cases "tick rate urls uids (world 0) s")
      case (Inl e)
      with True show ?thesis by (simp add: sampling_loop.simps [of p rate urls uids world s])
    next
      case (Inr s1)
      then have "time_elapsed s1 = time_elapsed s + 60 / rate" by (auto simp: tick_Inr)
      with Suc.prems(2) have "p * 60 - time_elapsed s1 \<le> real m * (60 / rate)"
        by (simp add: distrib_right add_divide_distrib)
      from Suc.IH [OF Suc.prems(1) this] obtain y where
        "sampling_loop p rate urls uids (\<lambda>n. world (Suc n)) s1 = Some y" by blast
      with True Inr show ?thesis by (simp add: sampling_loop.simps [of p rate urls uids world s])
    qed
  qed
qed

lemma loop_terminates:
  assumes "0 < rate"
  shows "\<exists>y. sampling_loop p rate urls uids world s = Some y"
proof -
  obtain m :: nat where "(p * 60 - time_elapsed s) / (60 / rate) \<le> real m"
    using real_arch_simple by blast
  then have "p * 60 - time_elapsed s \<le> real m * (60 / rate)"
    using assms by (simp add: field_simps)
  then show ?thesis using loop_terminates_within [OF assms] by blast
qed

text \<open>
  Claim C9. With a positive sampling period, a loop that ends normally has completed at
  least one tick, and the final division by the number of ticks is defined.
\<close>

theorem normal_exit_has_a_tick:
  assumes "0 < p"
    and "sampling_loop p rate urls uids world (session_start printed) = Some (Inr s)"
  shows "1 \<le> num_samples s \<and>
         report_average s = Inr (num_samples s, sample_total s / real_of_int (num_samples s))"
proof -
  from loop_returns [OF assms(2)] obtain k where
    k: "completed k p rate urls uids world (session_start printed) = Some s" and
    out: "\<not> time_elapsed s < p * 60"
    by blast
  have "k \<noteq> 0"
  proof
    assume "k = 0"
    with k have "s = session_start printed" by simp
    with out assms(1) show False by (simp add: session_start_def)
  qed
  moreover have "num_samples s = int k"
    using completed_counts [OF k] by (simp add: session_start_def)
  ultimately have "1 \<le> num_samples s" by simp
  then show ?thesis by (simp add: report_average_def)
qed

theorem normal_exit_has_a_tick_witness:
  "(0::real) < 1 / 10 \<and>
   sampling_loop (1 / 10) 1 [station_url ''token'' 3] [3] steady (session_start []) =
     Some (Inr \<lparr>sample_total = 30, num_samples = 1, time_elapsed = 60,
                effects = [Collected (1 / 2) [(30, 3)], Sleep (119 / 2)]\<rparr>) \<and>
   report_average \<lparr>sample_total = 30, num_samples = 1, time_elapsed = 60,
                effects = [Collected (1 / 2) [(30, 3)], Sleep (119 / 2)]\<rparr> = Inr (1, 30)"
proof -
  have pos: "(0::real) < 1 / 10" by simp
  have run: "sampling_loop (1 / 10) 1 [station_url ''token'' 3] [3] steady (session_start []) =
     Some (Inr \<lparr>sample_total = 30, num_samples = 1, time_elapsed = 60,
                effects = [Collected (1 / 2) [(30, 3)], Sleep (119 / 2)]\<rparr>)"
    by (simp add: sampling_loop.simps run_defs)
  from normal_exit_has_a_tick [OF pos run]
  show ?thesis using run by simp
qed



text \<open>
  Claim C3, on the code. When discovery keeps no station, nothing stops the session
  before the loop: with a positive period the first tick collects an empty sample list
  and divides by its length.
\<close>

theorem no_eligible_station_reaches_the_division:
  assumes "get_station_requests (query r) (probe r) coords api_token ''pm25'' =
             Inr (PyPair [] uids, notices)"
    and "0 < p"
  shows "tick rate [] uids (ticks r 0) s = Inl ZeroDivisionError \<and>
         session_body r api_token coords p rate = Some (Inl ZeroDivisionError)"
proof -
  have first: "tick rate [] uids w s' = Inl ZeroDivisionError" for w s'
    by (simp add: tick_def get_samples_def)
  have "rate_guard rate [] = Inr []" by (simp add: rate_guard_def)
  moreover have "sampling_loop p rate [] uids (ticks r) (session_start printed) =
      Some (Inl ZeroDivisionError)" for printed
    using assms(2) first
    by (simp add: sampling_loop.simps [of p rate "[]" uids "ticks r"] session_start_def)
  ultimately show ?thesis using assms(1) first by (simp add: session_body_def)
qed

theorem no_eligible_station_reaches_the_division_witness:
  "get_station_requests (query none_with_pm25) (probe none_with_pm25) ''1,2,3,4'' ''token'' ''pm25'' =
     Inr (PyPair [] [], [IgnoringStation 7]) \<and>
   (0::real) < 5 \<and>
   session_body none_with_pm25 ''token'' ''1,2,3,4'' 5 1 = Some (Inl ZeroDivisionError) \<and>
   main decimals none_with_pm25 [''main.py'', ''token'', ''1,2,3,4''] = Some (Inl ZeroDivisionError)"
proof -
  have found: "get_station_requests (query none_with_pm25) (probe none_with_pm25)
      ''1,2,3,4'' ''token'' ''pm25'' = Inr (PyPair [] [], [IgnoringStation 7])"
    by (simp add: run_defs none_with_pm25_def)
  have period: "(0::real) < 5" by simp
  have whole: "main decimals none_with_pm25 [''main.py'', ''token'', ''1,2,3,4''] =
      Some (Inl ZeroDivisionError)"
    by (simp add: run_defs none_with_pm25_def sampling_loop.simps)
  from no_eligible_station_reaches_the_division [OF found period, of 1 "session_start []"]
  show ?thesis using found whole by simp
qed

subsection \<open>Station discovery\<close>

lemma discovery_when_all_answer:
  "\<forall>uid \<in> set uids. answers pr tok uid \<Longrightarrow>
     \<exists>rs. get_responses_batch pr (map (station_url tok) uids) = Inr rs \<and>
          filter_stations iaqi (zip rs (zip (map (station_url tok) uids) uids)) =
            Inr (map (station_url tok) (filter (reports pr tok iaqi) uids),
                 filter (reports pr tok iaqi) uids,
                 map IgnoringStation (filter (\<lambda>uid. \<not> reports pr tok iaqi uid) uids))"
proof (induction uids)
  case Nil
  then show ?case by simp
next
  case (Cons uid uids)
  from Cons.prems obtain index where
    head: "pr (station_url tok uid) = Inr (FeedOk index)"
    by (auto simp: answers_def split: sum.splits feed_response.splits)
  from Cons.IH Cons.prems obtain rs where
    batch: "get_responses_batch pr (map (station_url tok) uids) = Inr rs" and
    rest: "filter_stations iaqi (zip rs (zip (map (station_url tok) uids) uids)) =
            Inr (map (station_url tok) (filter (reports pr tok iaqi) uids),
                 filter (reports pr tok iaqi) uids,
                 map IgnoringStation (filter (\<lambda>uid. \<not> reports pr tok iaqi uid) uids))"
    by auto
  have key: "reports pr tok iaqi uid \<longleftrightarrow> index iaqi \<noteq> None"
    using head by (simp add: reports_def)
  have "get_responses_batch pr (map (station_url tok) (uid # uids)) = Inr (FeedOk index # rs)"
    using head batch by simp
  moreover have
    "filter_stations iaqi
       (zip (FeedOk index # rs) (zip (map (station_url tok) (uid # uids)) (uid # uids))) =
     Inr (map (station_url tok) (filter (reports pr tok iaqi) (uid # uids)),
          filter (reports pr tok iaqi) (uid # uids),
          map IgnoringStation (filter (\<lambda>uid. \<not> reports pr tok iaqi uid) (uid # uids)))"
    using rest key by auto
  ultimately show ?case by blast
qed

text \<open>
  A probe whose request fails does not drop its station: the failure ends discovery.
\<close>

theorem probe_transport_failure_fails_discovery:
  "get_station_requests (\<lambda>url. Inr (BoundsOk [1, 2, 3])) unreachable_probe
     ''1,2,3,4'' ''token'' ''pm25'' =
     Inl (TransportFailure ''connection refused'')"
  by (simp add: run_defs unreachable_probe_def)

text \<open>
  Claim C7, as the code has it. Take a discovery run whose bounding-box query succeeds
  with at least one station. When every probe answers with a feed payload, the stations
  kept are exactly those whose payload has the requested key in its index, in the order
  of the query; each of the others is dropped with a notice that names its uid, and the
  list kept is no longer than the list the query returned. When the request of a probe
  fails, no station is dropped for it: discovery ends with the failure of the first such
  request.
\<close>

theorem discovery_keeps_reporting_stations:
  assumes "q (map_query_request coords api_token) = Inr (BoundsOk uids)" and "uids \<noteq> []"
  shows "((\<forall>uid \<in> set uids. answers pr api_token uid) \<longrightarrow>
            get_station_requests q pr coords api_token iaqi =
              Inr (PyPair (map (station_url api_token) (filter (reports pr api_token iaqi) uids))
                          (filter (reports pr api_token iaqi) uids),
                   map IgnoringStation (filter (\<lambda>uid. \<not> reports pr api_token iaqi uid) uids)) \<and>
            length (filter (reports pr api_token iaqi) uids) \<le> length uids) \<and>
         (i < length uids \<and> pr (station_url api_token (uids ! i)) = Inl e \<and>
          (\<forall>j < i. \<exists>response. pr (station_url api_token (uids ! j)) = Inr response) \<longrightarrow>
            get_station_requests q pr coords api_token iaqi = Inl e)"
proof (intro conjI impI)
  assume "\<forall>uid \<in> set uids. answers pr api_token uid"
  from discovery_when_all_answer [OF this, of iaqi] assms
  show "get_station_requests q pr coords api_token iaqi =
      Inr (PyPair (map (station_url api_token) (filter (reports pr api_token iaqi) uids))
                  (filter (reports pr api_token iaqi) uids),
           map IgnoringStation (filter (\<lambda>uid. \<not> reports pr api_token iaqi uid) uids))"
    by (auto simp: get_station_requests_def)
next
  show "length (filter (reports pr api_token iaqi) uids) \<le> length uids" by simp
next
  assume fails: "i < length uids \<and> pr (station_url api_token (uids ! i)) = Inl e \<and>
      (\<forall>j < i. \<exists>response. pr (station_url api_token (uids ! j)) = Inr response)"
  have "get_responses_batch pr (map (station_url api_token) uids) = Inl e"
  proof (rule get_responses_batch_Inl [of i])
    show "i < length (map (station_url api_token) uids)" using fails by simp
    show "pr (map (station_url api_token) uids ! i) = Inl e" using fails by simp
    show "\<forall>j < i. \<exists>r. pr (map (station_url api_token) uids ! j) = Inr r" using fails by simp
  qed
  then show "get_station_requests q pr coords api_token iaqi = Inl e"
    using assms by (simp add: get_station_requests_def)
qed

theorem discovery_keeps_reporting_stations_witness:
  "query one_without_pm25 (map_query_request ''1,2,3,4'' ''token'') = Inr (BoundsOk [1, 2, 3]) \<and>
   [1::int, 2, 3] \<noteq> [] \<and>
   (answers partial_feeds ''token'' 1 \<and> answers partial_feeds ''token'' 2 \<and>
    answers partial_feeds ''token'' 3) \<and>
   filter (reports partial_feeds ''token'' ''pm25'') [1, 2, 3] = [1, 3] \<and>
   get_station_requests (query one_without_pm25) partial_feeds ''1,2,3,4'' ''token'' ''pm25'' =
     Inr (PyPair [station_url ''token'' 1, station_url ''token'' 3] [1, 3], [IgnoringStation 2]) \<and>
   (1::nat) < length [1::int, 2, 3] \<and>
   unreachable_probe (station_url ''token'' ([1, 2, 3] ! 1)) =
     Inl (TransportFailure ''connection refused'') \<and>
   get_station_requests (query one_without_pm25) unreachable_probe ''1,2,3,4'' ''token'' ''pm25'' =
     Inl (TransportFailure ''connection refused'')"
proof -
  have found: "query one_without_pm25 (map_query_request ''1,2,3,4'' ''token'') =
      Inr (BoundsOk [1, 2, 3])"
    by (simp add: one_without_pm25_def)
  have some: "[1::int, 2, 3] \<noteq> []" by simp
  have each: "answers partial_feeds ''token'' 1 \<and> answers partial_feeds ''token'' 2 \<and>
      answers partial_feeds ''token'' 3"
    by (simp add: answers_def run_defs)
  have kept: "filter (reports partial_feeds ''token'' ''pm25'') [1, 2, 3] = [1, 3]"
    and dropped: "filter (\<lambda>uid. \<not> reports partial_feeds ''token'' ''pm25'' uid) [1, 2, 3] = [2]"
    by (simp_all add: reports_def run_defs)
  from each have all: "\<forall>uid \<in> set [1::int, 2, 3]. answers partial_feeds ''token'' uid"
    by simp
  have fails: "(1::nat) < length [1::int, 2, 3] \<and>
      unreachable_probe (station_url ''token'' ([1, 2, 3] ! 1)) =
        Inl (TransportFailure ''connection refused'') \<and>
      (\<forall>j < (1::nat). \<exists>response.
         unreachable_probe (station_url ''token'' ([1, 2, 3] ! j)) = Inr response)"
    by (simp add: unreachable_probe_def run_defs)
  from discovery_keeps_reporting_stations
    [where q = "query one_without_pm25" and coords = "''1,2,3,4''" and api_token = "''token''"
       and uids = "[1, 2, 3]" and pr = partial_feeds and iaqi = "''pm25''", OF found some] all
  have first: "get_station_requests (query one_without_pm25) partial_feeds ''1,2,3,4'' ''token'' ''pm25'' =
      Inr (PyPair (map (station_url ''token'') (filter (reports partial_feeds ''token'' ''pm25'') [1, 2, 3]))
                  (filter (reports partial_feeds ''token'' ''pm25'') [1, 2, 3]),
           map IgnoringStation (filter (\<lambda>uid. \<not> reports partial_feeds ''token'' ''pm25'' uid) [1, 2, 3]))"
    by blast
  from discovery_keeps_reporting_stations
    [where q = "query one_without_pm25" and coords = "''1,2,3,4''" and api_token = "''token''"
       and uids = "[1, 2, 3]" and pr = unreachable_probe and iaqi = "''pm25''" and i = 1
       and e = "TransportFailure ''connection refused''", OF found some] fails
  have second: "get_station_requests (query one_without_pm25) unreachable_probe
      ''1,2,3,4'' ''token'' ''pm25'' = Inl (TransportFailure ''connection refused'')"
    by blast
  show ?thesis using found each kept dropped first second fails by simp
qed

text \<open>
  The probe loop does not test the status of a payload, as the bounding-box query and
  \<^verbatim>\<open>get_samples\<close> do: an error payload, whose data is a string, raises \<^verbatim>\<open>TypeError\<close>
  where its index is read.
\<close>

lemma error_payload_probe_raises:
  "get_station_requests (\<lambda>url. Inr (BoundsOk [1, 2, 3])) failing_probe ''1,2,3,4'' ''token'' ''pm25'' =
     Inl TypeError"
  by (simp add: run_defs)

text \<open>
  Claim C4, on the code. When the bounding-box query succeeds with an empty station list,
  \<^verbatim>\<open>get_station_requests\<close> returns the float \<^verbatim>\<open>0.0\<close>, and the caller, which unpacks the
  result into two lists, ends the session with a \<^verbatim>\<open>TypeError\<close>.
\<close>

theorem empty_bounds_result_breaks_the_caller:
  assumes "query r (map_query_request coords api_token) = Inr (BoundsOk [])"
  shows "get_station_requests (query r) (probe r) coords api_token iaqi = Inr (PyFloat 0, []) \<and>
         session_body r api_token coords p rate = Some (Inl TypeError)"
  using assms by (simp add: get_station_requests_def session_body_def)

theorem empty_bounds_result_breaks_the_caller_witness:
  "query empty_area (map_query_request ''1,2,3,4'' ''token'') = Inr (BoundsOk []) \<and>
   get_station_requests (query empty_area) (probe empty_area) ''1,2,3,4'' ''token'' ''pm25'' =
     Inr (PyFloat 0, []) \<and>
   session_body empty_area ''token'' ''1,2,3,4'' 5 1 = Some (Inl TypeError) \<and>
   main decimals empty_area [''main.py'', ''token'', ''1,2,3,4''] = Some (Inl TypeError)"
proof -
  have answer: "query empty_area (map_query_request ''1,2,3,4'' ''token'') = Inr (BoundsOk [])"
    by (simp add: empty_area_def)
  have whole: "main decimals empty_area [''main.py'', ''token'', ''1,2,3,4''] = Some (Inl TypeError)"
    by (simp add: run_defs empty_area_def)
  from empty_bounds_result_breaks_the_caller [OF answer, of "''pm25''" 5 1]
  show ?thesis using answer whole by simp
qed

subsection \<open>Rounding\<close>

text \<open>Rounding to an integer keeps integers and the order.\<close>

lemma rint_of_int: "rint (of_int n) = n"
  by (simp add: rint_def)

lemma rint_power2: "rint (2 ^ n) = 2 ^ n"
  using rint_of_int [of "2 ^ n"] by simp

lemma rint_bounds: "\<lfloor>x\<rfloor> \<le> rint x \<and> rint x \<le> \<lfloor>x\<rfloor> + 1"
  by (simp add: rint_def Let_def)

lemma rint_mono:
  assumes "x \<le> y"
  shows "rint x \<le> rint y"
proof (cases "\<lfloor>x\<rfloor> < \<lfloor>y\<rfloor>")
  case True
  have "rint x \<le> \<lfloor>x\<rfloor> + 1" using rint_bounds by blast
  also have "\<dots> \<le> \<lfloor>y\<rfloor>" using True by simp
  also have "\<dots> \<le> rint y" using rint_bounds by blast
  finally show ?thesis .
next
  case False
  moreover have "\<lfloor>x\<rfloor> \<le> \<lfloor>y\<rfloor>" using assms by (rule floor_mono)
  ultimately have same: "\<lfloor>y\<rfloor> = \<lfloor>x\<rfloor>" by simp
  show ?thesis using assms by (simp add: rint_def Let_def same)
qed

text \<open>Scaling keeps the value and ends with the significand in its range.\<close>

lemma scale_down_props:
  "0 < m \<Longrightarrow> scale_down m e = (m', e') \<Longrightarrow>
     m' * 2 powi e' = m * 2 powi e \<and> 0 < m' \<and> m' < 2 ^ 53 \<and> (2 ^ 52 \<le> m \<longrightarrow> 2 ^ 52 \<le> m')"
proof (induction m e rule: scale_down.induct)
  case (1 m e)
  show ?case
  proof (cases "2 ^ 53 \<le> m")
    case True
    then have run: "scale_down (m / 2) (e + 1) = (m', e')"
      using "1.prems"(2) by (simp add: scale_down.simps [of m e])
    have "0 < m / 2" using "1.prems"(1) by simp
    from "1.IH" [OF True this run]
    have "m' * 2 powi e' = m / 2 * 2 powi (e + 1)" "0 < m'" "m' < 2 ^ 53"
         "2 ^ 52 \<le> m / 2 \<longrightarrow> 2 ^ 52 \<le> m'"
      by blast+
    moreover have "m / 2 * 2 powi (e + 1) = m * 2 powi e"
      by (simp add: power_int_add)
    moreover have "(2::real) ^ 52 \<le> m / 2" using True by simp
    ultimately show ?thesis by simp
  next
    case False
    then have "m' = m" "e' = e"
      using "1.prems"(2) by (simp_all add: scale_down.simps [of m e])
    with False "1.prems"(1) show ?thesis by simp
  qed
qed

lemma scale_up_props:
  "0 < m \<Longrightarrow> m < 2 ^ 53 \<Longrightarrow> scale_up m e = (m', e') \<Longrightarrow>
     m' * 2 powi e' = m * 2 powi e \<and> 2 ^ 52 \<le> m' \<and> m' < 2 ^ 53"
proof (induction m e rule: scale_up.induct)
  case (1 m e)
  show ?case
  proof (cases "m < 2 ^ 52")
    case True
    then have cond: "0 < m \<and> m < 2 ^ 52" using "1.prems"(1) by simp
    then have run: "scale_up (2 * m) (e - 1) = (m', e')"
      using "1.prems"(3) by (simp add: scale_up.simps [of m e])
    have "0 < 2 * m" "2 * m < 2 ^ 53" using cond by simp_all
    from "1.IH" [OF cond this run]
    have "m' * 2 powi e' = 2 * m * 2 powi (e - 1)" "2 ^ 52 \<le> m'" "m' < 2 ^ 53"
      by blast+
    moreover have "2 * m * 2 powi (e - 1) = m * 2 powi e"
      by (simp add: power_int_diff)
    ultimately show ?thesis by simp
  next
    case False
    then have "m' = m" "e' = e"
      using "1.prems"(3) by (simp_all add: scale_up.simps [of m e])
    with False "1.prems" show ?thesis by simp
  qed
qed

lemma normalise_props:
  assumes "0 < x" and "normalise x = (m, e)"
  shows "2 ^ 52 \<le> m \<and> m < 2 ^ 53 \<and> m * 2 powi e = x"
proof -
  obtain m1 e1 where down: "scale_down x 0 = (m1, e1)" by (cases "scale_down x 0")
  with assms(2) have up: "scale_up m1 e1 = (m, e)" by (simp add: normalise_def)
  from scale_down_props [OF assms(1) down]
  have d: "m1 * 2 powi e1 = x" "0 < m1" "m1 < 2 ^ 53" by simp_all
  from scale_up_props [OF d(2) d(3) up] d(1) show ?thesis by simp
qed

text \<open>Rounding keeps the sign and the order.\<close>

lemma round_pos_positive:
  assumes "0 < x"
  shows "0 < round_pos x"
proof -
  obtain m e where n: "normalise x = (m, e)" by (cases "normalise x")
  from normalise_props [OF assms n] have "2 ^ 52 \<le> m" by simp
  then have "rint (2 ^ 52) \<le> rint m" by (rule rint_mono)
  then have "0 < rint m" by (simp only: rint_power2) simp
  then show ?thesis using n by (simp add: round_pos_def)
qed

lemma round_pos_mono:
  assumes "0 < x" and "x \<le> y"
  shows "round_pos x \<le> round_pos y"
proof -
  obtain m e where nx: "normalise x = (m, e)" by (cases "normalise x")
  obtain m' e' where ny: "normalise y = (m', e')" by (cases "normalise y")
  from assms have "0 < y" by simp
  from normalise_props [OF assms(1) nx]
  have x: "2 ^ 52 \<le> m" "m < 2 ^ 53" "m * 2 powi e = x" by simp_all
  from normalise_props [OF \<open>0 < y\<close> ny]
  have y: "2 ^ 52 \<le> m'" "m' < 2 ^ 53" "m' * 2 powi e' = y" by simp_all
  have low: "2 ^ 52 \<le> rint m'"
  proof -
    have "rint (2 ^ 52) \<le> rint m'" using y(1) by (rule rint_mono)
    then show ?thesis by (simp only: rint_power2)
  qed
  have high: "rint m \<le> 2 ^ 53"
  proof -
    have "rint m \<le> rint (2 ^ 53)" using x(2) by (intro rint_mono) simp
    then show ?thesis by (simp only: rint_power2)
  qed
  have pos: "(0::real) < 2 powi e" "(0::real) < 2 powi e'" by simp_all
  have order: "e \<le> e'"
  proof (rule ccontr)
    assume "\<not> e \<le> e'"
    then have "e' + 1 \<le> e" by simp
    then have "(2::real) powi (e' + 1) \<le> 2 powi e" by (intro power_int_increasing) simp_all
    then have "2 ^ 53 * (2::real) powi e' \<le> 2 ^ 52 * 2 powi e"
      by (simp add: power_int_add)
    also have "\<dots> \<le> m * 2 powi e" using x(1) pos(1) by (intro mult_right_mono) simp_all
    finally have "2 ^ 53 * 2 powi e' \<le> x" using x(3) by simp
    moreover have "y < 2 ^ 53 * 2 powi e'"
      using y(2) y(3) pos(2) by (metis mult_strict_right_mono)
    ultimately show False using assms(2) by simp
  qed
  show ?thesis
  proof (cases "e = e'")
    case True
    have "m * 2 powi e \<le> m' * 2 powi e" using x(3) y(3) assms(2) True by simp
    then have "m \<le> m'" using pos(1) by (simp only: mult_le_cancel_right_pos)
    then have "rint m \<le> rint m'" by (rule rint_mono)
    then have "real_of_int (rint m) * 2 powi e \<le> real_of_int (rint m') * 2 powi e"
      using pos(1) by (intro mult_right_mono) simp_all
    then show ?thesis using nx ny True by (simp add: round_pos_def)
  next
    case False
    with order have "e + 1 \<le> e'" by simp
    then have step: "(2::real) powi (e + 1) \<le> 2 powi e'" by (intro power_int_increasing) simp_all
    have "real_of_int (rint m) * 2 powi e \<le> 2 ^ 53 * 2 powi e"
      using high pos(1) by (intro mult_right_mono) simp_all
    also have "\<dots> = 2 ^ 52 * (2::real) powi (e + 1)" by (simp add: power_int_add)
    also have "\<dots> \<le> 2 ^ 52 * 2 powi e'" using step by simp
    also have "\<dots> \<le> real_of_int (rint m') * 2 powi e'"
      using low pos(2) by (intro mult_right_mono) simp_all
    finally show ?thesis using nx ny by (simp add: round_pos_def)
  qed
qed

lemma round64_negative_iff: "round64 x < 0 \<longleftrightarrow> x < 0"
  using round_pos_positive [of x] round_pos_positive [of "- x"]
  by (auto simp: round64_def not_less dest: less_imp_le)

lemma round64_positive_iff: "0 < round64 x \<longleftrightarrow> 0 < x"
  using round_pos_positive [of x] round_pos_positive [of "- x"]
  by (auto simp: round64_def not_less dest: less_imp_le)

lemma round64_mono:
  assumes "x \<le> y"
  shows "round64 x \<le> round64 y"
proof -
  consider "0 < x" | "y < 0" | "x \<le> 0" "0 \<le> y" using assms by linarith
  then show ?thesis
  proof cases
    case 1
    then show ?thesis using assms round_pos_mono [of x y] by (simp add: round64_def)
  next
    case 2
    then have "0 < - y" "- y \<le> - x" using assms by simp_all
    from round_pos_mono [OF this] 2 assms show ?thesis by (simp add: round64_def)
  next
    case 3
    have "round64 x \<le> 0" using 3(1) round64_positive_iff [of x] by simp
    moreover have "0 \<le> round64 y" using 3(2) round64_negative_iff [of y] by simp
    ultimately show ?thesis by simp
  qed
qed

text \<open>Rounding moves a number by at most half a unit in its last place.\<close>

lemma rint_error: "\<bar>real_of_int (rint x) - x\<bar> \<le> 1 / 2"
proof -
  have "real_of_int \<lfloor>x\<rfloor> \<le> x" "x < real_of_int \<lfloor>x\<rfloor> + 1" by linarith+
  then show ?thesis by (auto simp: rint_def Let_def abs_le_iff)
qed

lemma round_pos_error:
  assumes "0 < x"
  shows "\<bar>round_pos x - x\<bar> \<le> x / 2 ^ 53"
proof -
  obtain m e where n: "normalise x = (m, e)" by (cases "normalise x")
  from normalise_props [OF assms n]
  have m: "2 ^ 52 \<le> m" and x: "m * 2 powi e = x" by simp_all
  have pos: "(0::real) < 2 powi e" by simp
  have "round_pos x - x = (real_of_int (rint m) - m) * 2 powi e"
    using n x by (simp add: round_pos_def algebra_simps)
  then have "\<bar>round_pos x - x\<bar> = \<bar>real_of_int (rint m) - m\<bar> * 2 powi e"
    using pos by (simp add: abs_mult)
  also have "\<dots> \<le> 1 / 2 * 2 powi e"
    using rint_error [of m] pos by (intro mult_right_mono) simp_all
  also have "\<dots> \<le> m / 2 ^ 53 * 2 powi e"
    using m pos by (intro mult_right_mono) simp_all
  also have "\<dots> = x / 2 ^ 53" using x by simp
  finally show ?thesis .
qed

lemma round64_error: "\<bar>round64 x - x\<bar> \<le> \<bar>x\<bar> / 2 ^ 53"
proof -
  consider "x = 0" | "0 < x" | "x < 0" by linarith
  then show ?thesis
  proof cases
    case 1
    then show ?thesis by (simp add: round64_def)
  next
    case 2
    then show ?thesis using round_pos_error [of x] by (simp add: round64_def)
  next
    case 3
    then have "0 < - x" by simp
    from round_pos_error [OF this] 3 show ?thesis by (simp add: round64_def)
  qed
qed

subsection \<open>The loop in double precision\<close>

lemma tick_double_Inr:
  "tick_double lib rate urls uids w s = Inr s' \<longleftrightarrow>
     (\<exists>samples. get_samples (fetch w) urls ''pm25'' = Inr samples \<and> samples \<noteq> [] \<and>
        rate \<noteq> 0 \<and> \<not> fsub (fdiv 60 rate) (latency w) < 0 \<and>
        \<not> sleep_overflows lib (fsub (fdiv 60 rate) (latency w)) \<and>
        s' = \<lparr>sample_total = fadd (sample_total s)
                               (fdiv (py_sum lib samples) (real (length samples))),
              num_samples = num_samples s + 1,
              time_elapsed = fadd (time_elapsed s) (fdiv 60 rate),
              effects = effects s @ [Collected (latency w) (zip samples uids),
                                     Sleep (fsub (fdiv 60 rate) (latency w))]\<rparr>)"
  by (auto simp: tick_double_def Let_def split: sum.splits)

lemma completed_double_counts:
  "completed_double lib k p rate urls uids world s = Some s' \<Longrightarrow>
     num_samples s' = num_samples s + int k \<and>
     time_elapsed s' = ((\<lambda>t. fadd t (fdiv 60 rate)) ^^ k) (time_elapsed s)"
proof (induction k arbitrary: world s)
  case 0
  then show ?case by simp
next
  case (Suc k)
  from Suc.prems obtain s1 where
    t: "tick_double lib rate urls uids (world 0) s = Inr s1" and
    c: "completed_double lib k p rate urls uids (\<lambda>n. world (Suc n)) s1 = Some s'"
    by (auto split: if_splits sum.splits)
  from t have "num_samples s1 = num_samples s + 1"
    "time_elapsed s1 = fadd (time_elapsed s) (fdiv 60 rate)"
    by (auto simp: tick_double_Inr)
  with Suc.IH [OF c] show ?case by (simp add: funpow_Suc_right del: funpow.simps)
qed

lemma loop_double_from_completed:
  "completed_double lib k p rate urls uids world s = Some s' \<Longrightarrow>
     sampling_loop_double lib p rate urls uids world s =
     sampling_loop_double lib p rate urls uids (\<lambda>n. world (k + n)) s'"
proof (induction k arbitrary: world s)
  case 0
  then show ?case by simp
next
  case (Suc k)
  from Suc.prems obtain s1 where
    g: "time_elapsed s < fmul p 60" and
    t: "tick_double lib rate urls uids (world 0) s = Inr s1" and
    c: "completed_double lib k p rate urls uids (\<lambda>n. world (Suc n)) s1 = Some s'"
    by (auto split: if_splits sum.splits)
  have "sampling_loop_double lib p rate urls uids world s =
        sampling_loop_double lib p rate urls uids (\<lambda>n. world (Suc n)) s1"
    using g t by (subst sampling_loop_double.simps) simp
  also have "\<dots> = sampling_loop_double lib p rate urls uids (\<lambda>n. world (Suc (k + n))) s'"
    using Suc.IH [OF c] by simp
  finally show ?case by simp
qed

lemma loop_double_returns_step:
  assumes "sampling_loop_double lib p rate urls uids world s = Some y"
  shows "\<forall>t. y = Inr t \<longrightarrow>
           (\<exists>k. completed_double lib k p rate urls uids world s = Some t \<and>
                \<not> time_elapsed t < fmul p 60)"
proof (rule sampling_loop_double.raw_induct
    [OF _ assms, where P = "\<lambda>lib p rate urls uids world s y. \<forall>t. y = Inr t \<longrightarrow>
           (\<exists>k. completed_double lib k p rate urls uids world s = Some t \<and>
                \<not> time_elapsed t < fmul p 60)"])
  fix loop lib p rate urls uids world s y
  assume IH: "\<And>lib p rate urls uids world s y. loop lib p rate urls uids world s = Some y \<Longrightarrow>
      \<forall>t. y = Inr t \<longrightarrow>
        (\<exists>k. completed_double lib k p rate urls uids world s = Some t \<and>
             \<not> time_elapsed t < fmul p 60)"
    and body: "(if time_elapsed s < fmul p 60
      then case tick_double lib rate urls uids (world 0) s of
           Inl e \<Rightarrow> Some (Inl e)
           | Inr s' \<Rightarrow> loop lib p rate urls uids (\<lambda>n. world (Suc n)) s'
      else Some (Inr s)) = Some y"
  show "\<forall>t. y = Inr t \<longrightarrow>
        (\<exists>k. completed_double lib k p rate urls uids world s = Some t \<and>
             \<not> time_elapsed t < fmul p 60)"
  proof (intro allI impI)
    fix t assume y: "y = Inr t"
    show "\<exists>k. completed_double lib k p rate urls uids world s = Some t \<and>
              \<not> time_elapsed t < fmul p 60"
    proof (cases "time_elapsed s < fmul p 60")
      case False
      with body y have "t = s" by simp
      with False have "completed_double lib 0 p rate urls uids world s = Some t \<and>
          \<not> time_elapsed t < fmul p 60"
        by simp
      then show ?thesis by blast
    next
      case True
      with body y obtain s1 where
        t: "tick_double lib rate urls uids (world 0) s = Inr s1" and
        l: "loop lib p rate urls uids (\<lambda>n. world (Suc n)) s1 = Some (Inr t)"
        by (auto split: sum.splits)
      from IH [OF l] obtain k where
        "completed_double lib k p rate urls uids (\<lambda>n. world (Suc n)) s1 = Some t"
        "\<not> time_elapsed t < fmul p 60"
        by blast
      with True t have "completed_double lib (Suc k) p rate urls uids world s = Some t \<and>
          \<not> time_elapsed t < fmul p 60"
        by simp
      then show ?thesis by blast
    qed
  qed
qed

lemma loop_double_returns:
  "sampling_loop_double lib p rate urls uids world s = Some (Inr t) \<Longrightarrow>
     \<exists>k. completed_double lib k p rate urls uids world s = Some t \<and>
         \<not> time_elapsed t < fmul p 60"
  using loop_double_returns_step by blast

text \<open>
  Seven samples a minute for one minute. The interval \<^verbatim>\<open>60.0 / 7\<close> added seven times is
  59.99999999999999, which is neither seven times the interval nor the sixty seconds of
  the period: the loop runs an eighth tick.
\<close>

theorem seven_intervals_fall_short_of_the_minute:
  "map_option time_elapsed
     (completed_double cpython 7 1 7 [station_url ''token'' 1] [1] steady (session_start [])) =
     Some (8444249301319679 / 140737488355328) \<and>
   (8444249301319679 / 140737488355328 :: real) \<noteq> 7 * (60 / 7) \<and>
   (8444249301319679 / 140737488355328 :: real) \<noteq> fmul 7 (fdiv 60 7) \<and>
   map_option (map_sum id num_samples)
     (sampling_loop_double cpython 1 7 [station_url ''token'' 1] [1] steady (session_start [])) =
     Some (Inr 8)"
proof -
  have seven: "map_option time_elapsed
     (completed_double cpython 7 1 7 [station_url ''token'' 1] [1] steady (session_start [])) =
     Some (8444249301319679 / 140737488355328)"
    by (simp add: double_defs run_defs eval_nat_numeral)
  have product: "fmul 7 (fdiv 60 7) = 60"
    by (simp add: double_defs)
  have eight: "map_option (map_sum id num_samples)
     (sampling_loop_double cpython 1 7 [station_url ''token'' 1] [1] steady (session_start [])) =
     Some (Inr 8)"
    by (simp add: double_defs run_defs sampling_loop_double.simps)
  show ?thesis using seven eight by (simp add: product)
qed

text \<open>
  Claim C2, as the code has it. Once \<open>k\<close> iterations of the loop have completed, the tick
  count is \<open>k\<close> and the elapsed time is the double that results from adding the interval
  \<^verbatim>\<open>60.0 / sampling_rate\<close> to zero \<open>k\<close> times, each sum rounded, whatever the measured
  latencies were; the loop goes on from that state, and it ends there, handing that state
  to the report, exactly when the elapsed time has reached the double
  \<^verbatim>\<open>sampling_period * 60.0\<close>.
\<close>

theorem loop_invariant_after_k_ticks:
  assumes "completed_double lib k p rate urls uids world (session_start printed) = Some s"
  shows "num_samples s = int k \<and>
         time_elapsed s = ((\<lambda>t. fadd t (fdiv 60 rate)) ^^ k) 0 \<and>
         sampling_loop_double lib p rate urls uids world (session_start printed) =
           sampling_loop_double lib p rate urls uids (\<lambda>n. world (k + n)) s \<and>
         (sampling_loop_double lib p rate urls uids (\<lambda>n. world (k + n)) s = Some (Inr s) \<longleftrightarrow>
            fmul p 60 \<le> time_elapsed s)"
proof -
  have counts: "num_samples s = int k \<and>
      time_elapsed s = ((\<lambda>t. fadd t (fdiv 60 rate)) ^^ k) 0"
    using completed_double_counts [OF assms] by (simp add: session_start_def)
  have onward: "sampling_loop_double lib p rate urls uids world (session_start printed) =
      sampling_loop_double lib p rate urls uids (\<lambda>n. world (k + n)) s"
    using loop_double_from_completed [OF assms] .
  have ends: "sampling_loop_double lib p rate urls uids (\<lambda>n. world (k + n)) s = Some (Inr s) \<longleftrightarrow>
      fmul p 60 \<le> time_elapsed s"
  proof
    assume "sampling_loop_double lib p rate urls uids (\<lambda>n. world (k + n)) s = Some (Inr s)"
    from loop_double_returns [OF this] show "fmul p 60 \<le> time_elapsed s" by auto
  next
    assume "fmul p 60 \<le> time_elapsed s"
    then show "sampling_loop_double lib p rate urls uids (\<lambda>n. world (k + n)) s = Some (Inr s)"
      by (simp add: sampling_loop_double.simps [of lib p rate urls uids _ s])
  qed
  show ?thesis using counts onward ends by blast
qed

theorem loop_invariant_after_k_ticks_witness:
  "completed_double cpython 2 2 1 [station_url ''token'' 1] [1] steady (session_start []) =
     Some \<lparr>sample_total = 20, num_samples = 2, time_elapsed = 120,
           effects = [Collected (1 / 2) [(10, 1)], Sleep (119 / 2),
                      Collected (1 / 2) [(10, 1)], Sleep (119 / 2)]\<rparr> \<and>
   (2::int) = int 2 \<and> (120::real) = ((\<lambda>t. fadd t (fdiv 60 1)) ^^ 2) 0 \<and>
   sampling_loop_double cpython 2 1 [station_url ''token'' 1] [1] steady (session_start []) =
     Some (Inr \<lparr>sample_total = 20, num_samples = 2, time_elapsed = 120,
           effects = [Collected (1 / 2) [(10, 1)], Sleep (119 / 2),
                      Collected (1 / 2) [(10, 1)], Sleep (119 / 2)]\<rparr>)"
proof -
  let ?s = "\<lparr>sample_total = 20, num_samples = 2, time_elapsed = 120,
           effects = [Collected (1 / 2) [(10, 1)], Sleep (119 / 2),
                      Collected (1 / 2) [(10, 1)], Sleep (119 / 2)]\<rparr>"
  have run: "completed_double cpython 2 2 1 [station_url ''token'' 1] [1] steady (session_start []) =
      Some ?s"
    by (simp add: numeral_2_eq_2 run_defs double_defs)
  have limit: "fmul 2 60 = 120" by (simp add: double_defs)
  from loop_invariant_after_k_ticks [OF run]
  show ?thesis using run by (simp add: limit)
qed

text \<open>
  A batch that takes exactly the target interval does not end the session: the loop
  sleeps for zero seconds and goes on.
\<close>

theorem latency_equal_to_interval_continues:
  "tick_double cpython 1 [station_url ''token'' 1] [1] on_the_minute (session_start []) =
     Inr \<lparr>sample_total = 10, num_samples = 1, time_elapsed = 60,
          effects = [Collected 60 [(10, 1)], Sleep 0]\<rparr>"
  by (simp add: double_defs run_defs on_the_minute_def)

text \<open>
  Claim C5, as the code has it. In a tick that has collected a non-empty list of samples,
  with a sampling rate other than zero, the session ends with the cadence error if and
  only if the measured latency is strictly greater than the interval
  \<^verbatim>\<open>60.0 / sampling_rate\<close>; when the latency is at most that interval the loop calls
  \<^verbatim>\<open>time.sleep\<close> with the difference, which may be zero, and continues once the sleep
  returns. The tick fails here only by the cadence error or inside \<^verbatim>\<open>time.sleep\<close>.
\<close>

theorem cadence_overrun_iff_latency_exceeds_interval:
  assumes "get_samples (fetch w) urls ''pm25'' = Inr samples" and "samples \<noteq> []"
    and "rate \<noteq> 0"
  shows "(tick_double lib rate urls uids w s = Inl (CadenceOverrun (latency w)) \<longleftrightarrow>
            fdiv 60 rate < latency w) \<and>
         (latency w \<le> fdiv 60 rate \<and>
          \<not> sleep_overflows lib (fsub (fdiv 60 rate) (latency w)) \<longrightarrow>
            (\<exists>s'. tick_double lib rate urls uids w s = Inr s' \<and>
                  effects s' = effects s @ [Collected (latency w) (zip samples uids),
                                            Sleep (fsub (fdiv 60 rate) (latency w))] \<and>
                  time_elapsed s' = fadd (time_elapsed s) (fdiv 60 rate))) \<and>
         ((\<exists>e. tick_double lib rate urls uids w s = Inl e) \<longleftrightarrow>
            fdiv 60 rate < latency w \<or>
            sleep_overflows lib (fsub (fdiv 60 rate) (latency w)))"
proof -
  have sign: "fsub (fdiv 60 rate) (latency w) < 0 \<longleftrightarrow> fdiv 60 rate < latency w"
    by (simp add: fsub_def round64_negative_iff)
  show ?thesis using assms by (auto simp: tick_double_def Let_def sign)
qed

theorem cadence_overrun_iff_latency_exceeds_interval_witness:
  "get_samples (fetch late) [station_url ''token'' 1] ''pm25'' = Inr [10] \<and>
   [10::real] \<noteq> [] \<and> (1::real) \<noteq> 0 \<and> fdiv 60 1 < latency late \<and>
   tick_double cpython 1 [station_url ''token'' 1] [1] late (session_start []) =
     Inl (CadenceOverrun 61) \<and>
   latency (steady 0) \<le> fdiv 60 1 \<and>
   \<not> sleep_overflows cpython (fsub (fdiv 60 1) (latency (steady 0))) \<and>
   tick_double cpython 1 [station_url ''token'' 1] [1] (steady 0) (session_start []) =
     Inr \<lparr>sample_total = 10, num_samples = 1, time_elapsed = 60,
          effects = [Collected (1 / 2) [(10, 1)], Sleep (119 / 2)]\<rparr> \<and>
   tick_double cpython (1 / 10 ^ 9) [station_url ''token'' 1] [1] (steady 0) (session_start []) =
     Inl OverflowError"
proof -
  have samples: "get_samples (fetch late) [station_url ''token'' 1] ''pm25'' = Inr [10]"
    by (simp add: run_defs late_def)
  have nonempty: "[10::real] \<noteq> []" and rate: "(1::real) \<noteq> 0" by simp_all
  have interval: "fdiv 60 1 = 60" by (simp add: double_defs)
  have in_time: "latency (steady 0) \<le> fdiv 60 1 \<and>
      \<not> sleep_overflows cpython (fsub (fdiv 60 1) (latency (steady 0)))"
    by (simp add: double_defs run_defs)
  have continues: "tick_double cpython 1 [station_url ''token'' 1] [1] (steady 0) (session_start []) =
     Inr \<lparr>sample_total = 10, num_samples = 1, time_elapsed = 60,
          effects = [Collected (1 / 2) [(10, 1)], Sleep (119 / 2)]\<rparr>"
    by (simp add: double_defs run_defs)
  have too_long: "tick_double cpython (1 / 10 ^ 9) [station_url ''token'' 1] [1] (steady 0)
      (session_start []) = Inl OverflowError"
    by (simp add: double_defs run_defs)
  from cadence_overrun_iff_latency_exceeds_interval
    [OF samples nonempty rate, of cpython "[1]" "session_start []"]
  have "tick_double cpython 1 [station_url ''token'' 1] [1] late (session_start []) =
      Inl (CadenceOverrun 61)"
    by (simp add: late_def interval)
  then show ?thesis using samples in_time continues too_long by (simp add: late_def interval)
qed

subsection \<open>The rate guard\<close>

lemma severity_rate_guard_double:
  "severity (rate_guard_double rate urls) =
     (if fmul (fdiv rate 60) (real (length urls)) > 1000 then 2
      else if fmul (fdiv rate 60) (real (length urls)) > 500 then 1 else 0)"
  by (simp add: severity_def rate_guard_double_def Let_def)

lemma estimate_mono_rate:
  assumes "rate \<le> rate'"
  shows "fmul (fdiv rate 60) (real (length urls)) \<le> fmul (fdiv rate' 60) (real (length urls))"
proof -
  have "rate / 60 \<le> rate' / 60" using assms by simp
  then have "fdiv rate 60 \<le> fdiv rate' 60" unfolding fdiv_def by (rule round64_mono)
  then have "fdiv rate 60 * real (length urls) \<le> fdiv rate' 60 * real (length urls)"
    by (intro mult_right_mono) simp_all
  then show ?thesis unfolding fmul_def by (rule round64_mono)
qed

lemma estimate_mono_stations:
  assumes "0 \<le> rate" and "length urls \<le> length urls'"
  shows "fmul (fdiv rate 60) (real (length urls)) \<le> fmul (fdiv rate 60) (real (length urls'))"
proof -
  have "\<not> rate / 60 < 0" using assms(1) by simp
  then have "0 \<le> fdiv rate 60" by (simp add: fdiv_def round64_negative_iff not_less [symmetric])
  then have "fdiv rate 60 * real (length urls) \<le> fdiv rate 60 * real (length urls')"
    using assms(2) by (intro mult_left_mono) simp_all
  then show ?thesis unfolding fmul_def by (rule round64_mono)
qed

lemma estimate_negative_rate:
  assumes "rate < 0"
  shows "fmul (fdiv rate 60) (real (length urls)) \<le> 0"
proof -
  have "rate / 60 < 0" using assms by simp
  then have "fdiv rate 60 < 0" by (simp add: fdiv_def round64_negative_iff)
  then have "fdiv rate 60 * real (length urls) \<le> 0"
    by (simp add: mult_nonpos_nonneg)
  then have "\<not> 0 < fdiv rate 60 * real (length urls)" by simp
  then have "\<not> 0 < fmul (fdiv rate 60) (real (length urls))"
    by (simp add: fmul_def round64_positive_iff)
  then show ?thesis by simp
qed

text \<open>
  Five hundred stations sampled once a second are an estimate of exactly 500 requests
  per second: the guard prints no warning.
\<close>

theorem exactly_500_is_silent:
  "rate_guard_double 60 (replicate 500 ''url'') = Inr []"
  by (simp add: double_defs)

text \<open>
  Claim C6, as the code has it. With the estimate \<^verbatim>\<open>(sampling_rate / 60) * stations\<close> as
  the code computes it, each of the two operations rounded to a double, the guard
  proceeds silently up to and including 500, warns strictly above 500 up to and
  including 1000, and rejects strictly above 1000, in which case the session ends with
  the rate error whatever the sampling would have observed. The outcome is monotone in
  the number of stations and in the sampling rate.
\<close>

theorem rate_guard_boundaries_and_monotonicity:
  "(rate_guard_double rate urls = Inr [] \<longleftrightarrow>
      fmul (fdiv rate 60) (real (length urls)) \<le> 500) \<and>
   (rate_guard_double rate urls = Inr [RateWarning] \<longleftrightarrow>
      500 < fmul (fdiv rate 60) (real (length urls)) \<and>
      fmul (fdiv rate 60) (real (length urls)) \<le> 1000) \<and>
   (rate_guard_double rate urls = Inl RateLimitExceeded \<longleftrightarrow>
      1000 < fmul (fdiv rate 60) (real (length urls))) \<and>
   (get_station_requests (query r) (probe r) coords api_token ''pm25'' =
      Inr (PyPair urls uids, notices) \<and> 1000 < fmul (fdiv rate 60) (real (length urls)) \<longrightarrow>
    session_body_double lib r api_token coords p rate = Some (Inl RateLimitExceeded)) \<and>
   (length urls \<le> length urls' \<longrightarrow>
      severity (rate_guard_double rate urls) \<le> severity (rate_guard_double rate urls')) \<and>
   (rate \<le> rate' \<longrightarrow>
      severity (rate_guard_double rate urls) \<le> severity (rate_guard_double rate' urls))"
proof (intro conjI impI)
  show "rate_guard_double rate urls = Inr [] \<longleftrightarrow>
      fmul (fdiv rate 60) (real (length urls)) \<le> 500"
    by (auto simp: rate_guard_double_def Let_def)
  show "rate_guard_double rate urls = Inr [RateWarning] \<longleftrightarrow>
      500 < fmul (fdiv rate 60) (real (length urls)) \<and>
      fmul (fdiv rate 60) (real (length urls)) \<le> 1000"
    by (auto simp: rate_guard_double_def Let_def)
  show "rate_guard_double rate urls = Inl RateLimitExceeded \<longleftrightarrow>
      1000 < fmul (fdiv rate 60) (real (length urls))"
    by (auto simp: rate_guard_double_def Let_def)
next
  assume "get_station_requests (query r) (probe r) coords api_token ''pm25'' =
      Inr (PyPair urls uids, notices) \<and> 1000 < fmul (fdiv rate 60) (real (length urls))"
  then show "session_body_double lib r api_token coords p rate = Some (Inl RateLimitExceeded)"
    by (simp add: session_body_double_def rate_guard_double_def Let_def)
next
  assume more: "length urls \<le> length urls'"
  show "severity (rate_guard_double rate urls) \<le> severity (rate_guard_double rate urls')"
  proof (cases "0 \<le> rate")
    case True
    from estimate_mono_stations [OF True more] show ?thesis
      by (simp add: severity_rate_guard_double)
  next
    case False
    then have "rate < 0" by simp
    from estimate_negative_rate [OF this, of urls] estimate_negative_rate [OF this, of urls']
    show ?thesis by (simp add: severity_rate_guard_double)
  qed
next
  assume "rate \<le> rate'"
  from estimate_mono_rate [OF this, of urls]
  show "severity (rate_guard_double rate urls) \<le> severity (rate_guard_double rate' urls)"
    by (simp add: severity_rate_guard_double)
qed

theorem rate_guard_boundaries_and_monotonicity_witness:
  "rate_guard_double 60 (replicate 501 ''url'') = Inr [RateWarning] \<and>
   rate_guard_double 60 (replicate 1000 ''url'') = Inr [RateWarning] \<and>
   rate_guard_double 60 (replicate 1001 ''url'') = Inl RateLimitExceeded \<and>
   fmul (fdiv 500 60) (real (length (replicate 60 ''url''))) = 8796093022208001 / 17592186044416 \<and>
   rate_guard_double 500 (replicate 60 ''url'') = Inr [RateWarning] \<and>
   rate_guard_double 500 (replicate 120 ''url'') = Inl RateLimitExceeded \<and>
   length (replicate 501 ''url'') \<le> length (replicate 1001 ''url'') \<and>
   severity (rate_guard_double 60 (replicate 501 ''url'')) \<le>
     severity (rate_guard_double 60 (replicate 1001 ''url'')) \<and>
   (60::real) \<le> 120 \<and>
   severity (rate_guard_double 60 (replicate 501 ''url'')) \<le>
     severity (rate_guard_double 120 (replicate 501 ''url'')) \<and>
   get_station_requests (query three_stations) (probe three_stations) ''1,2,3,4'' ''token'' ''pm25'' =
     Inr (PyPair (map (station_url ''token'') [1, 2, 3]) [1, 2, 3], []) \<and>
   session_body_double cpython three_stations ''token'' ''1,2,3,4'' 5 60000 =
     Some (Inl RateLimitExceeded)"
proof -
  have found: "get_station_requests (query three_stations) (probe three_stations)
      ''1,2,3,4'' ''token'' ''pm25'' =
     Inr (PyPair (map (station_url ''token'') [1, 2, 3]) [1, 2, 3], [])"
    by (simp add: run_defs three_stations_def)
  have over: "(1000::real) <
      fmul (fdiv 60000 60) (real (length (map (station_url ''token'') [1::int, 2, 3])))"
    by (simp add: double_defs)
  have computed: "fmul (fdiv 500 60) (real (length (replicate 60 ''url''))) =
      8796093022208001 / 17592186044416"
    by (simp add: double_defs)
  note stations = rate_guard_boundaries_and_monotonicity
    [of 60 "replicate 501 ''url''" three_stations "''1,2,3,4''" "''token''" "[]" "[]" cpython 0
        "replicate 1001 ''url''" 120]
  note session = rate_guard_boundaries_and_monotonicity
    [of 60000 "map (station_url ''token'') [1, 2, 3]" three_stations "''1,2,3,4''" "''token''"
        "[1, 2, 3]" "[]" cpython 5 "[]" 60000]
  note rounded = rate_guard_boundaries_and_monotonicity
    [of 500 "replicate 60 ''url''" three_stations "''1,2,3,4''" "''token''" "[]" "[]" cpython 0
        "[]" 500]
  have more: "length (replicate 501 ''url'') \<le> length (replicate 1001 ''url'')"
    and faster: "(60::real) \<le> 120"
    by simp_all
  have a: "severity (rate_guard_double 60 (replicate 501 ''url'')) \<le>
           severity (rate_guard_double 60 (replicate 1001 ''url''))"
    using stations more by blast
  have b: "severity (rate_guard_double 60 (replicate 501 ''url'')) \<le>
           severity (rate_guard_double 120 (replicate 501 ''url''))"
    using stations faster by blast
  have c: "session_body_double cpython three_stations ''token'' ''1,2,3,4'' 5 60000 =
      Some (Inl RateLimitExceeded)"
    using session found over by blast
  have d: "rate_guard_double 60 (replicate 501 ''url'') = Inr [RateWarning] \<and>
           rate_guard_double 60 (replicate 1000 ''url'') = Inr [RateWarning] \<and>
           rate_guard_double 60 (replicate 1001 ''url'') = Inl RateLimitExceeded"
    by (simp add: double_defs)
  have e: "rate_guard_double 500 (replicate 60 ''url'') = Inr [RateWarning]"
    using rounded computed by simp
  have f: "rate_guard_double 500 (replicate 120 ''url'') = Inl RateLimitExceeded"
    by (simp add: double_defs)
  show ?thesis using a b c d e f found computed by simp
qed

subsection \<open>Input validation\<close>

text \<open>
  Claim C10. With coordinates that hold a comma and a period that parses, every sampling
  rate that parses as a float is accepted unless \<open>rate / 60 > 1000\<close>: zero and negative
  rates pass. With a rate of zero, a tick that has collected its samples divides by zero
  where it computes \<open>60 / sampling_rate\<close>.
\<close>

theorem validation_accepts_zero_and_negative_rates:
  assumes "CHR '','' \<in> set coords" and "is_float float_of period_arg"
    and "is_float float_of rate_arg"
  shows "(validate_input float_of coords period_arg rate_arg =
            Inr (coords, the (to_float float_of period_arg), the (to_float float_of rate_arg)) \<longleftrightarrow>
          the (to_float float_of rate_arg) / 60 \<le> 1000) \<and>
         ((\<exists>e. validate_input float_of coords period_arg rate_arg = Inl e) \<longleftrightarrow>
          the (to_float float_of rate_arg) / 60 > 1000) \<and>
         (the (to_float float_of rate_arg) \<le> 0 \<longrightarrow>
          validate_input float_of coords period_arg rate_arg =
            Inr (coords, the (to_float float_of period_arg), the (to_float float_of rate_arg))) \<and>
         (get_samples (fetch w) urls ''pm25'' = Inr samples \<and> samples \<noteq> [] \<longrightarrow>
          tick 0 urls uids w s = Inl ZeroDivisionError)"
  using assms by (auto simp: validate_input_def Let_def tick_def)

theorem validation_accepts_zero_and_negative_rates_witness:
  "CHR '','' \<in> set ''1,2,3,4'' \<and> is_float decimals (Str ''5'') \<and> is_float decimals (Str ''0'') \<and>
   validate_input decimals ''1,2,3,4'' (Str ''5'') (Str ''0'') = Inr (''1,2,3,4'', 5, 0) \<and>
   validate_input decimals ''1,2,3,4'' (Str ''5'') (Str ''-1'') = Inr (''1,2,3,4'', 5, - 1) \<and>
   get_samples (fetch (steady 0)) [station_url ''token'' 1] ''pm25'' = Inr [10] \<and>
   tick 0 [station_url ''token'' 1] [1] (steady 0) (session_start []) = Inl ZeroDivisionError \<and>
   main decimals three_stations [''main.py'', ''token'', ''1,2,3,4'', ''5'', ''0''] =
     Some (Inl ZeroDivisionError)"
proof -
  have comma: "CHR '','' \<in> set ''1,2,3,4''" by simp
  have period: "is_float decimals (Str ''5'')" by (simp add: is_float_def decimals_def)
  have zero: "is_float decimals (Str ''0'')" by (simp add: is_float_def decimals_def)
  have negative: "is_float decimals (Str ''-1'')" by (simp add: is_float_def decimals_def)
  have samples: "get_samples (fetch (steady 0)) [station_url ''token'' 1] ''pm25'' = Inr [10]"
    by (simp add: run_defs)
  have whole: "main decimals three_stations [''main.py'', ''token'', ''1,2,3,4'', ''5'', ''0''] =
     Some (Inl ZeroDivisionError)"
    by (simp add: run_defs three_stations_def sampling_loop.simps)
  note at_zero = validation_accepts_zero_and_negative_rates
    [OF comma period zero, of "steady 0" "[station_url ''token'' 1]" "[10]" "[1]" "session_start []"]
  note below_zero = validation_accepts_zero_and_negative_rates
    [OF comma period negative, of "steady 0" "[station_url ''token'' 1]" "[10]" "[1]" "session_start []"]
  have a: "validate_input decimals ''1,2,3,4'' (Str ''5'') (Str ''0'') = Inr (''1,2,3,4'', 5, 0)"
    using at_zero by (simp add: decimals_def)
  have b: "validate_input decimals ''1,2,3,4'' (Str ''5'') (Str ''-1'') = Inr (''1,2,3,4'', 5, - 1)"
    using below_zero by (simp add: decimals_def)
  have c: "tick 0 [station_url ''token'' 1] [1] (steady 0) (session_start []) = Inl ZeroDivisionError"
    using at_zero samples by simp
  show ?thesis using comma period zero samples whole a b c by simp
qed

end
